theory Spec2Isabelle
  imports Complex_Main
begin

section \<open>JavaScript values\<close>

text \<open>
  The values that cross the boundaries of the middleware (request ids, parameters, handler
  results, thrown values) are modelled by \<open>jsval\<close>. Numbers are the integral ones of
  magnitude below \<open>10^21\<close> (those print in full), \<open>JError n m\<close> is an instance of the
  error class \<open>n\<close> with message \<open>m\<close> (\<open>new Error(m)\<close> is \<open>JError ''Error'' m\<close>),
  \<open>JObj\<close> is a plain object given by its own properties in insertion order and converted
  to a string by the inherited \<open>toString\<close> (an object that overrides \<open>toString\<close> is outside
  the model), \<open>JArr\<close> an array. Strings are lists of UTF-16 code units; every code unit the
  sources use is below 256, so one \<open>char\<close> stands for one code unit (Latin-1).
\<close>

datatype jsval =
    JUndefined
  | JNull
  | JBool bool
  | JNum int
  | JStr string
  | JError string string
  | JArr "jsval list"
  | JObj "(string \<times> jsval) list"

text \<open>A computation either throws (or rejects with) a value, \<open>Inl\<close>, or returns one, \<open>Inr\<close>.\<close>

type_synonym 'a outcome = "jsval + 'a"

text \<open>The non-ASCII code units and the apostrophe of the French messages.\<close>

definition e_acute :: char where "e_acute = CHR 0xE9"
definition e_grave :: char where "e_grave = CHR 0xE8"
definition c_cedilla :: char where "c_cedilla = CHR 0xE7"
definition apos :: string where "apos = [CHR 0x27]"

fun digits_of :: "nat \<Rightarrow> string" where
  "digits_of n =
     (if n < 10 then [char_of (48 + n)]
      else digits_of (n div 10) @ [char_of (48 + n mod 10)])"

declare digits_of.simps [simp del]

fun join_comma :: "string list \<Rightarrow> string" where
  "join_comma [] = []"
| "join_comma [s] = s"
| "join_comma (s # t # ss) = s @ '','' @ join_comma (t # ss)"

text \<open>
  \<open>to_string v\<close> is the string a template literal \<open>`${v}`\<close> produces. A plain object prints
  as \<open>[object Object]\<close>, an array as its elements joined by commas (\<open>null\<close> and
  \<open>undefined\<close> elements print as nothing), an error as \<open>name: message\<close>.
\<close>

fun to_string :: "jsval \<Rightarrow> string" where
  "to_string JUndefined = ''undefined''"
| "to_string JNull = ''null''"
| "to_string (JBool b) = (if b then ''true'' else ''false'')"
| "to_string (JNum n) = (if n < 0 then ''-'' @ digits_of (nat (- n)) else digits_of (nat n))"
| "to_string (JStr s) = s"
| "to_string (JError n m) = (if m = [] then n else if n = [] then m else n @ '': '' @ m)"
| "to_string (JArr xs) =
     join_comma (map (\<lambda>x. if x = JUndefined \<or> x = JNull then [] else to_string x) xs)"
| "to_string (JObj fs) = ''[object Object]''"

text \<open>
  \<open>get_prop v k\<close> is the property read \<open>v.k\<close>: it throws a \<open>TypeError\<close> (here \<open>None\<close>) on
  \<open>undefined\<close> and \<open>null\<close>, and yields \<open>undefined\<close> where the property is absent. Only the
  properties \<open>message\<close>, \<open>name\<close>, \<open>params\<close>, \<open>id\<close>, \<open>content\<close> and \<open>isError\<close> are ever
  read, none of which a primitive or an array has.
\<close>

fun get_prop :: "jsval \<Rightarrow> string \<Rightarrow> jsval option" where
  "get_prop JUndefined k = None"
| "get_prop JNull k = None"
| "get_prop (JObj fs) k = (case map_of fs k of None \<Rightarrow> Some JUndefined | Some v \<Rightarrow> Some v)"
| "get_prop (JError n m) k =
     (if k = ''message'' then Some (JStr m) else if k = ''name'' then Some (JStr n)
      else Some JUndefined)"
| "get_prop v k = Some JUndefined"

text \<open>
  The \<open>TypeError\<close> of a property read or a destructuring on \<open>null\<close> or \<open>undefined\<close>. Its
  message is chosen by the engine and stands here for all of them; only the class is meant.
\<close>

definition nullish_TypeError :: jsval where
  "nullish_TypeError = JError ''TypeError'' ''Cannot read properties of null or undefined''"

text \<open>
  \<open>error_message e\<close> is the interpolation \<open>${error.message}\<close> every \<open>catch\<close> block of the
  middleware evaluates: \<open>None\<close> when reading \<open>.message\<close> itself throws.
\<close>

definition error_message :: "jsval \<Rightarrow> string option" where
  "error_message e = (case get_prop e ''message'' of None \<Rightarrow> None | Some m \<Rightarrow> Some (to_string m))"

section \<open>JavaScript \<open>Map\<close> objects\<close>

text \<open>
  A \<open>Map\<close> keeps its entries in insertion order with one entry a key: an association list.
  \<open>set\<close> on a key already present replaces the value where the entry stands, otherwise
  appends; \<open>delete\<close> drops the entry.
\<close>

type_synonym ('k, 'v) jsmap = "('k \<times> 'v) list"

primrec jsmap_set :: "'k \<Rightarrow> 'v \<Rightarrow> ('k, 'v) jsmap \<Rightarrow> ('k, 'v) jsmap" where
  "jsmap_set k v [] = [(k, v)]"
| "jsmap_set k v (p # ps) = (if fst p = k then (k, v) # ps else p # jsmap_set k v ps)"

definition jsmap_delete :: "'k \<Rightarrow> ('k, 'v) jsmap \<Rightarrow> ('k, 'v) jsmap" where
  "jsmap_delete k m = filter (\<lambda>p. fst p \<noteq> k) m"

definition jsmap_has :: "'k \<Rightarrow> ('k, 'v) jsmap \<Rightarrow> bool" where
  "jsmap_has k m = (k \<in> set (map fst m))"

definition jsmap_get :: "'k \<Rightarrow> ('k, 'v) jsmap \<Rightarrow> 'v option" where
  "jsmap_get k m = map_of m k"

definition jsmap_values :: "('k, 'v) jsmap \<Rightarrow> 'v list" where
  "jsmap_values m = map snd m"

definition jsmap_ok :: "('k, 'v) jsmap \<Rightarrow> bool" where
  "jsmap_ok m = distinct (map fst m)"

section \<open>Message router\<close>

text \<open>
  \<open>MessageRouter\<close> of \<open>mcp-middleware.js\<close>. A request carries \<open>id\<close>, \<open>method\<close> and
  \<open>params\<close>; a route handler receives the whole message and returns or throws. The calls of
  the logger leave the router as it is and are not part of the model. \<open>await\<close> is sequential
  composition: a handler that never settles is outside the model.
\<close>

record request =
  req_id :: jsval
  req_method :: jsval
  req_params :: jsval

type_synonym route_handler = "request \<Rightarrow> jsval outcome"

record router =
  routes :: "(string, route_handler) jsmap"

definition registerRoute :: "router \<Rightarrow> string \<Rightarrow> route_handler \<Rightarrow> router" where
  "registerRoute r method hnd = r\<lparr>routes := jsmap_set method hnd (routes r)\<rparr>"

text \<open>The keys of \<open>routes\<close> are strings, so only a string \<open>method\<close> can be present.\<close>

definition route_for :: "router \<Rightarrow> jsval \<Rightarrow> route_handler option" where
  "route_for r method = (case method of JStr s \<Rightarrow> jsmap_get s (routes r) | _ \<Rightarrow> None)"

definition rpc_error :: "jsval \<Rightarrow> int \<Rightarrow> string \<Rightarrow> jsval" where
  "rpc_error i code msg =
     JObj [(''jsonrpc'', JStr ''2.0''), (''id'', i),
           (''error'', JObj [(''code'', JNum code), (''message'', JStr msg)])]"

definition method_not_found_text :: "jsval \<Rightarrow> string" where
  "method_not_found_text method =
     ''M'' @ [e_acute] @ ''thode '' @ apos @ to_string method @ apos @ '' non trouv''
       @ [e_acute] @ ''e''"

definition routeMessage :: "router \<Rightarrow> request \<Rightarrow> jsval outcome" where
  "routeMessage r message =
     (case route_for r (req_method message) of
        None \<Rightarrow>
          Inr (rpc_error (req_id message) (- 32601) (method_not_found_text (req_method message)))
      | Some hnd \<Rightarrow>
          (case hnd message of
             Inr response \<Rightarrow> Inr response
           | Inl error \<Rightarrow>
               (case error_message error of
                  None \<Rightarrow> Inl nullish_TypeError
                | Some msg \<Rightarrow>
                    Inr (rpc_error (req_id message) (- 32000) (''Erreur interne: '' @ msg)))))"

text \<open>Two concrete route handlers: one answers with a bare string, one throws an error.\<close>

definition pong_handler :: route_handler where
  "pong_handler message = Inr (JStr ''pong'')"

definition failing_handler :: route_handler where
  "failing_handler message = Inl (JError ''Error'' ''boom'')"

definition ping_router :: router where
  "ping_router = \<lparr>routes = [(''ping'', pong_handler), (''fail'', failing_handler)]\<rparr>"

definition ping_request :: request where
  "ping_request = \<lparr>req_id = JNum 7, req_method = JStr ''ping'', req_params = JUndefined\<rparr>"

section \<open>Tool and resource descriptors\<close>

text \<open>
  A descriptor is the object an agent hands to \<open>registerTool\<close> or \<open>registerResource\<close>:
  \<open>{name, description, inputSchema, handler}\<close>, and \<open>agentId\<close> once an agent has adopted it.
  A field is \<open>None\<close> when the object has no such property. The descriptor schema types
  \<open>name\<close> and \<open>description\<close> as strings and \<open>handler\<close> as a function, given here by what
  it returns or throws on its parameters. Descriptors are objects with identity: they live in
  a heap and are passed, stored and returned by reference, as the sources do. A reference is
  the position of the object in the heap, and allocation appends to the heap.
\<close>

type_synonym handler_fn = "jsval \<Rightarrow> jsval outcome"

record descriptor =
  name :: "string option"
  description :: "string option"
  inputSchema :: "jsval option"
  handler :: "handler_fn option"
  agentId :: "string option"

type_synonym ref = nat

type_synonym heap = "descriptor list"

text \<open>The test \<open>!x\<close> on a string property: a missing property and the empty string are falsy.\<close>

definition falsy :: "string option \<Rightarrow> bool" where
  "falsy s = (case s of None \<Rightarrow> True | Some t \<Rightarrow> t = [])"

section \<open>Capability registry\<close>

text \<open>
  \<open>CapabilityRegistry\<close> of \<open>mcp-middleware.js\<close>: two \<open>Map\<close>s from a name to the descriptor
  registered under it.
\<close>

record registry =
  reg_tools :: "(string, ref) jsmap"
  reg_resources :: "(string, ref) jsmap"

definition new_registry :: registry where
  "new_registry = \<lparr>reg_tools = [], reg_resources = []\<rparr>"

definition registry_registerTool :: "heap \<Rightarrow> registry \<Rightarrow> ref \<Rightarrow> registry outcome" where
  "registry_registerTool h reg tool =
     (if falsy (name (h ! tool)) \<or> handler (h ! tool) = None
      then Inl (JError ''Error'' ''Un outil doit avoir un nom et un gestionnaire'')
      else Inr (reg\<lparr>reg_tools := jsmap_set (the (name (h ! tool))) tool (reg_tools reg)\<rparr>))"

text \<open>
  \<open>unregisterTool\<close> receives \<open>tool.name\<close>; the keys of the map are strings, so a missing
  name is never present.
\<close>

definition registry_unregisterTool :: "registry \<Rightarrow> string option \<Rightarrow> registry" where
  "registry_unregisterTool reg nm =
     (case nm of
        None \<Rightarrow> reg
      | Some k \<Rightarrow>
          (if jsmap_has k (reg_tools reg)
           then reg\<lparr>reg_tools := jsmap_delete k (reg_tools reg)\<rparr> else reg))"

definition registry_registerResource :: "heap \<Rightarrow> registry \<Rightarrow> ref \<Rightarrow> registry outcome" where
  "registry_registerResource h reg resource =
     (if falsy (name (h ! resource)) \<or> handler (h ! resource) = None
      then Inl (JError ''Error'' ''Une ressource doit avoir un nom et un gestionnaire'')
      else Inr (reg\<lparr>reg_resources :=
                      jsmap_set (the (name (h ! resource))) resource (reg_resources reg)\<rparr>))"

definition registry_unregisterResource :: "registry \<Rightarrow> string option \<Rightarrow> registry" where
  "registry_unregisterResource reg nm =
     (case nm of
        None \<Rightarrow> reg
      | Some k \<Rightarrow>
          (if jsmap_has k (reg_resources reg)
           then reg\<lparr>reg_resources := jsmap_delete k (reg_resources reg)\<rparr> else reg))"

text \<open>The \<open>list\<close> handlers: \<open>Array.from(this.tools.values())\<close>.\<close>

definition tool_list :: "registry \<Rightarrow> ref list" where
  "tool_list reg = jsmap_values (reg_tools reg)"

definition resource_list :: "registry \<Rightarrow> ref list" where
  "resource_list reg = jsmap_values (reg_resources reg)"

text \<open>
  The \<open>call\<close> and \<open>get\<close> handlers that \<open>initialize\<close> installs on the server. \<open>tool_for\<close> is
  \<open>this.tools.has(name)\<close> followed by \<open>this.tools.get(name)\<close>; \<open>invoke\<close> is the call
  \<open>tool.handler(p)\<close> or \<open>resource.handler(p)\<close>, a \<open>TypeError\<close> naming the callee, thrown
  inside the \<open>try\<close>, when there is no handler.
\<close>

definition tool_for :: "registry \<Rightarrow> jsval \<Rightarrow> ref option" where
  "tool_for reg nm = (case nm of JStr s \<Rightarrow> jsmap_get s (reg_tools reg) | _ \<Rightarrow> None)"

definition resource_for :: "registry \<Rightarrow> jsval \<Rightarrow> ref option" where
  "resource_for reg nm = (case nm of JStr s \<Rightarrow> jsmap_get s (reg_resources reg) | _ \<Rightarrow> None)"

definition invoke :: "string \<Rightarrow> descriptor \<Rightarrow> jsval \<Rightarrow> jsval outcome" where
  "invoke callee d p =
     (case handler d of
        None \<Rightarrow> Inl (JError ''TypeError'' (callee @ '' is not a function''))
      | Some f \<Rightarrow> f p)"

definition error_result :: "string \<Rightarrow> jsval" where
  "error_result msg =
     JObj [(''isError'', JBool True), (''content'', JObj [(''message'', JStr msg)])]"

definition tool_not_found_text :: "jsval \<Rightarrow> string" where
  "tool_not_found_text nm =
     ''Outil '' @ apos @ to_string nm @ apos @ '' non trouv'' @ [e_acute]"

definition resource_not_found_text :: "jsval \<Rightarrow> string" where
  "resource_not_found_text nm =
     ''Ressource '' @ apos @ to_string nm @ apos @ '' non trouv'' @ [e_acute] @ ''e''"

definition tool_call :: "heap \<Rightarrow> registry \<Rightarrow> jsval \<Rightarrow> jsval outcome" where
  "tool_call h reg params =
     (case (get_prop params ''name'', get_prop params ''params'') of
        (Some nm, Some toolParams) \<Rightarrow>
          (case tool_for reg nm of
             None \<Rightarrow> Inl (JError ''Error'' (tool_not_found_text nm))
           | Some tool \<Rightarrow>
               (case invoke ''tool.handler'' (h ! tool) toolParams of
                  Inr result \<Rightarrow> Inr result
                | Inl error \<Rightarrow>
                    (case error_message error of
                       None \<Rightarrow> Inl nullish_TypeError
                     | Some msg \<Rightarrow> Inr (error_result (''Erreur: '' @ msg)))))
      | _ \<Rightarrow> Inl nullish_TypeError)"

definition resource_get :: "heap \<Rightarrow> registry \<Rightarrow> jsval \<Rightarrow> jsval outcome" where
  "resource_get h reg params =
     (case (get_prop params ''name'', get_prop params ''params'') of
        (Some nm, Some resourceParams) \<Rightarrow>
          (case resource_for reg nm of
             None \<Rightarrow> Inl (JError ''Error'' (resource_not_found_text nm))
           | Some resource \<Rightarrow>
               (case invoke ''resource.handler'' (h ! resource) resourceParams of
                  Inr result \<Rightarrow> Inr result
                | Inl error \<Rightarrow>
                    (case error_message error of
                       None \<Rightarrow> Inl nullish_TypeError
                     | Some msg \<Rightarrow> Inl error)))
      | _ \<Rightarrow> Inl nullish_TypeError)"

text \<open>
  The shapes a caller of \<open>tool_call\<close> can look for: an object with a \<open>content\<close> property, and
  \<open>{isError: true, content: {message}}\<close> with a string message.
\<close>

definition has_content :: "jsval \<Rightarrow> bool" where
  "has_content v = (case v of JObj fs \<Rightarrow> map_of fs ''content'' \<noteq> None | _ \<Rightarrow> False)"

definition is_error_result :: "jsval \<Rightarrow> bool" where
  "is_error_result v =
     (get_prop v ''isError'' = Some (JBool True) \<and>
      (case get_prop v ''content'' of
         Some c \<Rightarrow> (case get_prop c ''message'' of Some (JStr m) \<Rightarrow> True | _ \<Rightarrow> False)
       | None \<Rightarrow> False))"

text \<open>
  Concrete tools: \<open>echo\<close> returns its parameters (the handler \<open>params => params\<close>), \<open>boom\<close>
  throws an error, and a second descriptor named \<open>echo\<close> answers with a constant.
\<close>

definition echo_fn :: handler_fn where
  "echo_fn p = Inr p"

definition boom_fn :: handler_fn where
  "boom_fn p = Inl (JError ''Error'' ''boom'')"

definition const_fn :: handler_fn where
  "const_fn p = Inr (JObj [(''content'', JStr ''ok'')])"

definition echo_tool :: descriptor where
  "echo_tool = \<lparr>name = Some ''echo'', description = Some ''Echo'', inputSchema = None,
                 handler = Some echo_fn, agentId = Some ''a''\<rparr>"

definition boom_tool :: descriptor where
  "boom_tool = \<lparr>name = Some ''boom'', description = Some ''Boom'', inputSchema = None,
                 handler = Some boom_fn, agentId = Some ''a''\<rparr>"

definition echo2_tool :: descriptor where
  "echo2_tool = \<lparr>name = Some ''echo'', description = Some ''Second echo'', inputSchema = None,
                  handler = Some const_fn, agentId = Some ''b''\<rparr>"

definition demo_heap :: heap where
  "demo_heap = [echo_tool, boom_tool, echo2_tool]"

definition demo_registry :: registry where
  "demo_registry = \<lparr>reg_tools = [(''echo'', 0), (''boom'', 1)],
                     reg_resources = [(''echo'', 0), (''boom'', 1)]\<rparr>"

definition call_params :: "string \<Rightarrow> jsval \<Rightarrow> jsval" where
  "call_params nm p = JObj [(''name'', JStr nm), (''params'', p)]"

section \<open>Agents\<close>

text \<open>
  \<open>BaseAgent\<close> and its subclasses \<open>ContentAnalysisAgent\<close> and \<open>TwitterAgent\<close>. An agent
  object carries its class (for the dispatch of the overridden methods), the fields the
  constructors set, the interval timers it has set and not cleared, the levels of the lines it
  logged, and the events it emitted with the descriptor they carry. \<open>methods\<close> gives, for the
  name of a method of the class, that method bound to the agent as a handler; what the bound
  analysis methods compute on a parameters object plays no part in the life cycle. Calls are
  awaited one after the other; no event listener is attached to the agent.
\<close>

datatype agent_class = BaseAgent | ContentAnalysisAgent | TwitterAgent

datatype log_level = LInfo | LWarn | LError | LDebug

record agent =
  agent_class :: agent_class
  agent_id :: string
  methods :: "string \<Rightarrow> handler_fn"
  tools :: "ref list"
  resources :: "ref list"
  running :: bool
  queueInterval :: "nat option"
  timers :: "nat list"
  next_timer :: nat
  logged :: "log_level list"
  emitted :: "(string \<times> ref option) list"

definition new_BaseAgent :: "agent_class \<Rightarrow> string \<Rightarrow> (string \<Rightarrow> handler_fn) \<Rightarrow> agent" where
  "new_BaseAgent cls ident ms =
     \<lparr>agent_class = cls, agent_id = ident, methods = ms, tools = [], resources = [],
      running = False, queueInterval = None, timers = [], next_timer = 0, logged = [LInfo],
      emitted = []\<rparr>"

definition new_ContentAnalysisAgent :: "(string \<Rightarrow> handler_fn) \<Rightarrow> agent" where
  "new_ContentAnalysisAgent ms =
     (let a = new_BaseAgent ContentAnalysisAgent ''content-analysis'' ms
      in a\<lparr>logged := logged a @ [LInfo]\<rparr>)"

definition new_TwitterAgent :: "(string \<Rightarrow> handler_fn) \<Rightarrow> agent" where
  "new_TwitterAgent ms =
     (let a = new_BaseAgent TwitterAgent ''twitter'' ms in a\<lparr>logged := logged a @ [LInfo]\<rparr>)"

text \<open>Sequencing of calls that may throw, and the allocation of an object literal.\<close>

fun and_then :: "'a outcome \<Rightarrow> ('a \<Rightarrow> 'b outcome) \<Rightarrow> 'b outcome" where
  "and_then (Inl e) f = Inl e"
| "and_then (Inr x) f = f x"

definition alloc :: "heap \<Rightarrow> descriptor \<Rightarrow> heap \<times> ref" where
  "alloc h d = (h @ [d], length h)"

text \<open>
  \<open>BaseAgent.registerTool\<close> and \<open>BaseAgent.registerResource\<close>: the spread
  \<open>{...tool, agentId: this.id}\<close> allocates a new object.
\<close>

definition agent_registerTool :: "heap \<Rightarrow> agent \<Rightarrow> ref \<Rightarrow> (heap \<times> agent \<times> ref) outcome" where
  "agent_registerTool h a tool =
     (if falsy (name (h ! tool)) \<or> falsy (description (h ! tool)) \<or> handler (h ! tool) = None
      then Inl (JError ''Error''
                  ''Un outil doit avoir un nom, une description et un gestionnaire'')
      else
        (case alloc h ((h ! tool)\<lparr>agentId := Some (agent_id a)\<rparr>) of
           (h', toolWithAgent) \<Rightarrow>
             Inr (h',
                  a\<lparr>tools := tools a @ [toolWithAgent],
                    logged := logged a @ [LDebug],
                    emitted := emitted a @ [(''tool-registered'', Some toolWithAgent)]\<rparr>,
                  toolWithAgent)))"

definition agent_registerResource ::
  "heap \<Rightarrow> agent \<Rightarrow> ref \<Rightarrow> (heap \<times> agent \<times> ref) outcome" where
  "agent_registerResource h a resource =
     (if falsy (name (h ! resource)) \<or> falsy (description (h ! resource))
         \<or> handler (h ! resource) = None
      then Inl (JError ''Error''
                  ''Une ressource doit avoir un nom, une description et un gestionnaire'')
      else
        (case alloc h ((h ! resource)\<lparr>agentId := Some (agent_id a)\<rparr>) of
           (h', resourceWithAgent) \<Rightarrow>
             Inr (h',
                  a\<lparr>resources := resources a @ [resourceWithAgent],
                    logged := logged a @ [LDebug],
                    emitted :=
                      emitted a @ [(''resource-registered'', Some resourceWithAgent)]\<rparr>,
                  resourceWithAgent)))"

definition getTools :: "agent \<Rightarrow> ref list" where
  "getTools a = tools a"

definition getResources :: "agent \<Rightarrow> ref list" where
  "getResources a = resources a"

text \<open>\<open>this.registerTool({...})\<close> on an object literal; the value returned is dropped.\<close>

definition registerTool_literal :: "descriptor \<Rightarrow> heap \<times> agent \<Rightarrow> (heap \<times> agent) outcome" where
  "registerTool_literal d s =
     (case s of (h, a) \<Rightarrow>
        (case alloc h d of (h1, lit) \<Rightarrow>
           and_then (agent_registerTool h1 a lit) (\<lambda>(h2, a2, r). Inr (h2, a2))))"

definition registerResource_literal ::
  "descriptor \<Rightarrow> heap \<times> agent \<Rightarrow> (heap \<times> agent) outcome" where
  "registerResource_literal d s =
     (case s of (h, a) \<Rightarrow>
        (case alloc h d of (h1, lit) \<Rightarrow>
           and_then (agent_registerResource h1 a lit) (\<lambda>(h2, a2, r). Inr (h2, a2))))"

text \<open>The descriptors \<open>ContentAnalysisAgent.initialize\<close> and \<open>TwitterAgent.initialize\<close> register.\<close>

definition ty :: "string \<Rightarrow> jsval" where
  "ty t = JObj [(''type'', JStr t)]"

definition analyze_text_tool :: "agent \<Rightarrow> descriptor" where
  "analyze_text_tool a =
     \<lparr>name = Some ''analyze_text'',
      description = Some (''Analyse le contenu textuel pour en extraire le sentiment, ''
                          @ ''les sujets et les entit'' @ [e_acute] @ ''s''),
      inputSchema = Some (JObj
        [(''type'', JStr ''object''),
         (''properties'', JObj
            [(''text'', ty ''string''),
             (''options'', JObj
                [(''type'', JStr ''object''),
                 (''properties'', JObj
                    [(''extractSentiment'', ty ''boolean''),
                     (''extractTopics'', ty ''boolean''),
                     (''extractEntities'', ty ''boolean''),
                     (''language'', ty ''string'')])])]),
         (''required'', JArr [JStr ''text''])]),
      handler = Some (methods a ''analyzeText''),
      agentId = None\<rparr>"

definition analyze_image_tool :: "agent \<Rightarrow> descriptor" where
  "analyze_image_tool a =
     \<lparr>name = Some ''analyze_image'',
      description = Some (''Analyse le contenu des images pour en extraire les objets, sc''
                          @ [e_grave] @ ''nes et texte''),
      inputSchema = Some (JObj
        [(''type'', JStr ''object''),
         (''properties'', JObj
            [(''imageUrl'', ty ''string''),
             (''imageBase64'', ty ''string''),
             (''options'', JObj
                [(''type'', JStr ''object''),
                 (''properties'', JObj
                    [(''detectObjects'', ty ''boolean''),
                     (''detectScenes'', ty ''boolean''),
                     (''extractText'', ty ''boolean''),
                     (''moderateContent'', ty ''boolean'')])])]),
         (''oneOf'', JArr [JObj [(''required'', JArr [JStr ''imageUrl''])],
                          JObj [(''required'', JArr [JStr ''imageBase64''])]])]),
      handler = Some (methods a ''analyzeImage''),
      agentId = None\<rparr>"

definition analyze_post_tool :: "agent \<Rightarrow> descriptor" where
  "analyze_post_tool a =
     \<lparr>name = Some ''analyze_post'',
      description = Some (''Analyse un post complet (texte et m'' @ [e_acute]
                          @ ''dia) des r'' @ [e_acute] @ ''seaux sociaux''),
      inputSchema = Some (JObj
        [(''type'', JStr ''object''),
         (''properties'', JObj
            [(''text'', ty ''string''),
             (''mediaUrls'', JObj [(''type'', JStr ''array''), (''items'', ty ''string'')]),
             (''platform'', ty ''string''),
             (''options'', JObj
                [(''type'', JStr ''object''),
                 (''properties'', JObj
                    [(''extractHashtags'', ty ''boolean''),
                     (''predictEngagement'', ty ''boolean''),
                     (''detectTrends'', ty ''boolean'')])])]),
         (''required'', JArr [JStr ''text''])]),
      handler = Some (methods a ''analyzePost''),
      agentId = None\<rparr>"

definition analysis_results_resource :: "agent \<Rightarrow> descriptor" where
  "analysis_results_resource a =
     \<lparr>name = Some ''content_analysis_results'',
      description = Some (''R'' @ [e_acute] @ ''sultats des analyses de contenu pr''
                          @ [e_acute] @ ''c'' @ [e_acute] @ ''dentes''),
      inputSchema = None,
      handler = Some (methods a ''getAnalysisResults''),
      agentId = None\<rparr>"

definition searchTweets :: handler_fn where
  "searchTweets params = Inr (JObj [(''success'', JBool True), (''content'', JArr [])])"

definition search_tweets_tool :: descriptor where
  "search_tweets_tool =
     \<lparr>name = Some ''search_tweets'', description = Some ''Recherche des tweets'',
      inputSchema = None, handler = Some searchTweets, agentId = None\<rparr>"

text \<open>\<open>initialize\<close>, by class; \<open>this.initialize()\<close> in \<open>BaseAgent.start\<close> dispatches on it.\<close>

definition BaseAgent_initialize :: "heap \<times> agent \<Rightarrow> (heap \<times> agent) outcome" where
  "BaseAgent_initialize s = (case s of (h, a) \<Rightarrow> Inr (h, a\<lparr>logged := logged a @ [LInfo]\<rparr>))"

definition ContentAnalysisAgent_initialize :: "heap \<times> agent \<Rightarrow> (heap \<times> agent) outcome" where
  "ContentAnalysisAgent_initialize s =
     and_then (BaseAgent_initialize s) (\<lambda>s1.
     and_then (registerTool_literal (analyze_text_tool (snd s1)) s1) (\<lambda>s2.
     and_then (registerTool_literal (analyze_image_tool (snd s2)) s2) (\<lambda>s3.
     and_then (registerTool_literal (analyze_post_tool (snd s3)) s3) (\<lambda>s4.
     and_then (registerResource_literal (analysis_results_resource (snd s4)) s4) (\<lambda>s5.
     Inr (fst s5, (snd s5)\<lparr>logged := logged (snd s5) @ [LInfo]\<rparr>))))))"

definition TwitterAgent_initialize :: "heap \<times> agent \<Rightarrow> (heap \<times> agent) outcome" where
  "TwitterAgent_initialize s =
     and_then (BaseAgent_initialize s) (\<lambda>s1. registerTool_literal search_tweets_tool s1)"

definition initialize :: "heap \<times> agent \<Rightarrow> (heap \<times> agent) outcome" where
  "initialize s =
     (case agent_class (snd s) of
        BaseAgent \<Rightarrow> BaseAgent_initialize s
      | ContentAnalysisAgent \<Rightarrow> ContentAnalysisAgent_initialize s
      | TwitterAgent \<Rightarrow> TwitterAgent_initialize s)"

text \<open>
  \<open>BaseAgent.start\<close> and \<open>BaseAgent.stop\<close>. When \<open>initialize\<close> throws, \<open>start\<close> logs an
  error and throws the same value again; the state the failed call leaves behind is not
  part of the result.
\<close>

definition BaseAgent_start :: "heap \<times> agent \<Rightarrow> (heap \<times> agent) outcome" where
  "BaseAgent_start s =
     (case s of (h, a) \<Rightarrow>
        (if running a then Inr (h, a\<lparr>logged := logged a @ [LWarn]\<rparr>)
         else
           (case initialize (h, a) of
              Inl error \<Rightarrow> Inl error
            | Inr (h1, a1) \<Rightarrow>
                Inr (h1, a1\<lparr>running := True,
                           logged := logged a1 @ [LInfo],
                           emitted := emitted a1 @ [(''started'', None)]\<rparr>))))"

definition BaseAgent_stop :: "agent \<Rightarrow> agent" where
  "BaseAgent_stop a =
     (if \<not> running a then a\<lparr>logged := logged a @ [LWarn]\<rparr>
      else a\<lparr>running := False,
             logged := logged a @ [LInfo],
             emitted := emitted a @ [(''stopped'', None)]\<rparr>)"

text \<open>
  The queue processor of \<open>ContentAnalysisAgent\<close>: \<open>setInterval\<close> yields a fresh timer,
  \<open>clearInterval\<close> cancels the one \<open>queueInterval\<close> holds.
\<close>

definition startQueueProcessor :: "agent \<Rightarrow> agent" where
  "startQueueProcessor a =
     a\<lparr>queueInterval := Some (next_timer a),
       timers := timers a @ [next_timer a],
       next_timer := Suc (next_timer a)\<rparr>"

definition stopQueueProcessor :: "agent \<Rightarrow> agent" where
  "stopQueueProcessor a =
     (case queueInterval a of
        None \<Rightarrow> a
      | Some t \<Rightarrow> a\<lparr>timers := removeAll t (timers a), queueInterval := None\<rparr>)"

definition ContentAnalysisAgent_start :: "heap \<times> agent \<Rightarrow> (heap \<times> agent) outcome" where
  "ContentAnalysisAgent_start s =
     and_then (BaseAgent_start s) (\<lambda>(h1, a1).
       (case startQueueProcessor a1 of a2 \<Rightarrow> Inr (h1, a2\<lparr>logged := logged a2 @ [LInfo]\<rparr>)))"

definition ContentAnalysisAgent_stop :: "agent \<Rightarrow> agent" where
  "ContentAnalysisAgent_stop a =
     (case BaseAgent_stop (stopQueueProcessor a) of a1 \<Rightarrow> a1\<lparr>logged := logged a1 @ [LInfo]\<rparr>)"

definition start :: "heap \<times> agent \<Rightarrow> (heap \<times> agent) outcome" where
  "start s =
     (case agent_class (snd s) of
        ContentAnalysisAgent \<Rightarrow> ContentAnalysisAgent_start s
      | _ \<Rightarrow> BaseAgent_start s)"

definition stop :: "agent \<Rightarrow> agent" where
  "stop a =
     (case agent_class a of
        ContentAnalysisAgent \<Rightarrow> ContentAnalysisAgent_stop a
      | _ \<Rightarrow> BaseAgent_stop a)"

text \<open>How often an event was emitted.\<close>

definition times_emitted :: "string \<Rightarrow> agent \<Rightarrow> nat" where
  "times_emitted ev a = length (filter (\<lambda>e. fst e = ev) (emitted a))"

text \<open>The bound methods of a test agent: every one answers with an empty content.\<close>

definition stub_methods :: "string \<Rightarrow> handler_fn" where
  "stub_methods m p = Inr (JObj [(''content'', JNull)])"

section \<open>Middleware\<close>

text \<open>
  \<open>McpMiddleware\<close>: the agents by id and the capability registry. \<open>registerAgent\<close> accepts
  any object and looks at run time for \<open>getTools\<close> and \<open>getResources\<close>; \<open>OtherObj\<close> is an
  object with neither. The map holds references to agent objects; an entry stands for the
  state of that object when the middleware is called. When a registration throws inside
  \<open>registerAgent\<close> the exception reaches the caller; the state the failed call leaves
  behind is not part of the result.
\<close>

datatype mw_agent = AgentObj agent | OtherObj

record middleware =
  agents :: "(string, mw_agent) jsmap"
  capabilityRegistry :: registry
  mw_log :: "log_level list"

definition getTools_of :: "mw_agent \<Rightarrow> ref list option" where
  "getTools_of obj = (case obj of AgentObj a \<Rightarrow> Some (getTools a) | OtherObj \<Rightarrow> None)"

definition getResources_of :: "mw_agent \<Rightarrow> ref list option" where
  "getResources_of obj = (case obj of AgentObj a \<Rightarrow> Some (getResources a) | OtherObj \<Rightarrow> None)"

fun registerTools :: "heap \<Rightarrow> ref list \<Rightarrow> registry \<Rightarrow> registry outcome" where
  "registerTools h [] reg = Inr reg"
| "registerTools h (t # ts) reg =
     and_then (registry_registerTool h reg t) (registerTools h ts)"

fun registerResources :: "heap \<Rightarrow> ref list \<Rightarrow> registry \<Rightarrow> registry outcome" where
  "registerResources h [] reg = Inr reg"
| "registerResources h (t # ts) reg =
     and_then (registry_registerResource h reg t) (registerResources h ts)"

definition registerAgent :: "heap \<Rightarrow> middleware \<Rightarrow> string \<Rightarrow> mw_agent \<Rightarrow> middleware outcome" where
  "registerAgent h mw ident obj =
     (let mw1 = (if jsmap_has ident (agents mw) then mw\<lparr>mw_log := mw_log mw @ [LWarn]\<rparr>
                 else mw);
          mw2 = mw1\<lparr>agents := jsmap_set ident obj (agents mw1)\<rparr>
      in and_then (case getTools_of obj of
                     Some ts \<Rightarrow> registerTools h ts (capabilityRegistry mw2)
                   | None \<Rightarrow> Inr (capabilityRegistry mw2)) (\<lambda>reg1.
         and_then (case getResources_of obj of
                     Some rs \<Rightarrow> registerResources h rs reg1
                   | None \<Rightarrow> Inr reg1) (\<lambda>reg2.
         Inr (mw2\<lparr>capabilityRegistry := reg2, mw_log := mw_log mw2 @ [LInfo]\<rparr>))))"

definition unregisterTools :: "heap \<Rightarrow> ref list \<Rightarrow> registry \<Rightarrow> registry" where
  "unregisterTools h ts reg = fold (\<lambda>tool r. registry_unregisterTool r (name (h ! tool))) ts reg"

definition unregisterResources :: "heap \<Rightarrow> ref list \<Rightarrow> registry \<Rightarrow> registry" where
  "unregisterResources h rs reg =
     fold (\<lambda>resource r. registry_unregisterResource r (name (h ! resource))) rs reg"

definition unregisterAgent :: "heap \<Rightarrow> middleware \<Rightarrow> string \<Rightarrow> middleware" where
  "unregisterAgent h mw ident =
     (case jsmap_get ident (agents mw) of
        None \<Rightarrow> mw\<lparr>mw_log := mw_log mw @ [LWarn]\<rparr>
      | Some obj \<Rightarrow>
          (let reg1 = (case getTools_of obj of
                         Some ts \<Rightarrow> unregisterTools h ts (capabilityRegistry mw)
                       | None \<Rightarrow> capabilityRegistry mw);
               reg2 = (case getResources_of obj of
                         Some rs \<Rightarrow> unregisterResources h rs reg1
                       | None \<Rightarrow> reg1)
           in mw\<lparr>agents := jsmap_delete ident (agents mw),
                 capabilityRegistry := reg2,
                 mw_log := mw_log mw @ [LInfo]\<rparr>))"

section \<open>Predicates and scenarios for the properties\<close>

text \<open>
  An entry of a registry map is filed under the name of its descriptor: what
  \<open>registerTool\<close> and \<open>registerResource\<close> establish for every entry they write.
\<close>

definition filed_by_name :: "heap \<Rightarrow> (string, ref) jsmap \<Rightarrow> bool" where
  "filed_by_name h m = list_all (\<lambda>p. name (h ! snd p) = Some (fst p)) m"

text \<open>The number of entries the tools map holds under a name.\<close>

definition entries_named :: "string \<Rightarrow> registry \<Rightarrow> nat" where
  "entries_named n reg = length (filter (\<lambda>p. fst p = n) (reg_tools reg))"

text \<open>
  What \<open>unregisterAgent\<close> is to achieve: no descriptor of the list is found in the registry
  under its name, and no reference the registry lists is one of the agent's.
\<close>

definition unregistered_tools :: "heap \<Rightarrow> registry \<Rightarrow> ref list \<Rightarrow> bool" where
  "unregistered_tools h reg ts =
     list_all (\<lambda>t. case name (h ! t) of None \<Rightarrow> True
                   | Some k \<Rightarrow> tool_for reg (JStr k) = None) ts"

definition unregistered_resources :: "heap \<Rightarrow> registry \<Rightarrow> ref list \<Rightarrow> bool" where
  "unregistered_resources h reg rs =
     list_all (\<lambda>t. case name (h ! t) of None \<Rightarrow> True
                   | Some k \<Rightarrow> resource_for reg (JStr k) = None) rs"

definition disjoint_lists :: "ref list \<Rightarrow> ref list \<Rightarrow> bool" where
  "disjoint_lists xs ys = list_all (\<lambda>x. x \<notin> set ys) xs"

text \<open>
  Ownership as the descriptors record it: a listed entry is owned by an id when its
  \<open>agentId\<close> is that id. \<open>owned_within\<close> says that every entry of a listing that the id
  owns is one of the given references.
\<close>

definition owned_by :: "heap \<Rightarrow> string \<Rightarrow> ref \<Rightarrow> bool" where
  "owned_by h owner r = (agentId (h ! r) = Some owner)"

definition none_owned_by :: "heap \<Rightarrow> string \<Rightarrow> ref list \<Rightarrow> bool" where
  "none_owned_by h owner rs = list_all (\<lambda>r. \<not> owned_by h owner r) rs"

definition owned_within :: "heap \<Rightarrow> string \<Rightarrow> ref list \<Rightarrow> ref list \<Rightarrow> bool" where
  "owned_within h owner rs own = list_all (\<lambda>r. owned_by h owner r \<longrightarrow> r \<in> set own) rs"

text \<open>
  A middleware in which the agent \<open>a\<close> owns both tools and the resource \<open>boom\<close>, and
  another agent the resource \<open>echo\<close>.
\<close>

definition demo_agent :: agent where
  "demo_agent = (new_BaseAgent BaseAgent ''a'' stub_methods)\<lparr>tools := [0, 1], resources := [1]\<rparr>"

definition shared_registry :: registry where
  "shared_registry = \<lparr>reg_tools = [(''echo'', 0), (''boom'', 1)],
                       reg_resources = [(''boom'', 1), (''echo'', 2)]\<rparr>"

definition shared_middleware :: middleware where
  "shared_middleware =
     \<lparr>agents = [(''a'', AgentObj demo_agent)], capabilityRegistry = shared_registry,
      mw_log = []\<rparr>"

text \<open>
  An id registered twice: two agents with the id \<open>a\<close> register one tool each, the second
  agent replaces the first in the middleware under the id \<open>a\<close>, and the id is unregistered.
  The scenario yields the heap and the tool list of the registry at its end.
\<close>

definition new_middleware :: middleware where
  "new_middleware = \<lparr>agents = [], capabilityRegistry = new_registry, mw_log = []\<rparr>"

definition tool_one :: descriptor where
  "tool_one = \<lparr>name = Some ''one'', description = Some ''First tool'', inputSchema = None,
                handler = Some echo_fn, agentId = None\<rparr>"

definition tool_two :: descriptor where
  "tool_two = \<lparr>name = Some ''two'', description = Some ''Second tool'', inputSchema = None,
                handler = Some echo_fn, agentId = None\<rparr>"

definition replaced_heap :: heap where
  "replaced_heap =
     [tool_one, tool_one\<lparr>agentId := Some ''a''\<rparr>, tool_two, tool_two\<lparr>agentId := Some ''a''\<rparr>]"

definition replaced_agent_listing :: "(heap \<times> ref list) outcome" where
  "replaced_agent_listing =
     and_then (registerTool_literal tool_one ([], new_BaseAgent BaseAgent ''a'' stub_methods))
       (\<lambda>(h1, first).
     and_then (registerTool_literal tool_two (h1, new_BaseAgent BaseAgent ''a'' stub_methods))
       (\<lambda>(h2, second).
     and_then (registerAgent h2 new_middleware ''a'' (AgentObj first)) (\<lambda>mw1.
     and_then (registerAgent h2 mw1 ''a'' (AgentObj second)) (\<lambda>mw2.
     Inr (h2, tool_list (capabilityRegistry (unregisterAgent h2 mw2 ''a'')))))))"

text \<open>
  What \<open>BaseAgent.registerTool\<close> and \<open>BaseAgent.registerResource\<close> accept: a truthy
  name, a truthy description and a handler.
\<close>

definition valid_descriptor :: "descriptor \<Rightarrow> bool" where
  "valid_descriptor d = (\<not> falsy (name d) \<and> \<not> falsy (description d) \<and> handler d \<noteq> None)"

text \<open>
  The objects one run of \<open>ContentAnalysisAgent.initialize\<close> allocates: each literal, followed
  by the copy \<open>registerTool\<close> or \<open>registerResource\<close> makes of it.
\<close>

definition ContentAnalysisAgent_descriptors :: "agent \<Rightarrow> descriptor list" where
  "ContentAnalysisAgent_descriptors a =
     [analyze_text_tool a, (analyze_text_tool a)\<lparr>agentId := Some (agent_id a)\<rparr>,
      analyze_image_tool a, (analyze_image_tool a)\<lparr>agentId := Some (agent_id a)\<rparr>,
      analyze_post_tool a, (analyze_post_tool a)\<lparr>agentId := Some (agent_id a)\<rparr>,
      analysis_results_resource a,
      (analysis_results_resource a)\<lparr>agentId := Some (agent_id a)\<rparr>]"

text \<open>
  Two scenarios on a new content analysis agent and an empty heap, each yielding the agent's
  tool and resource lists after its first and after its second step: \<open>start(); stop();
  start()\<close>, and \<open>initialize(); start()\<close> as \<open>index.js\<close> and \<open>test-agent.js\<close> run it.
\<close>

definition restart_lists ::
  "(string \<Rightarrow> handler_fn) \<Rightarrow> ((ref list \<times> ref list) \<times> (ref list \<times> ref list)) outcome" where
  "restart_lists ms =
     and_then (start ([], new_ContentAnalysisAgent ms)) (\<lambda>(h1, a1).
     and_then (start (h1, stop a1)) (\<lambda>(h2, a2).
     Inr ((getTools a1, getResources a1), (getTools a2, getResources a2))))"

definition initialize_then_start_lists ::
  "(string \<Rightarrow> handler_fn) \<Rightarrow> ((ref list \<times> ref list) \<times> (ref list \<times> ref list)) outcome" where
  "initialize_then_start_lists ms =
     and_then (initialize ([], new_ContentAnalysisAgent ms)) (\<lambda>(h1, a1).
     and_then (start (h1, a1)) (\<lambda>(h2, a2).
     Inr ((getTools a1, getResources a1), (getTools a2, getResources a2))))"

text \<open>
  Every entry of the agent's lists is a descriptor of the heap whose \<open>agentId\<close> is the
  agent's id.
\<close>

definition owned :: "heap \<Rightarrow> agent \<Rightarrow> bool" where
  "owned h a =
     list_all (\<lambda>r. r < length h \<and> agentId (h ! r) = Some (agent_id a))
       (tools a @ resources a)"

text \<open>
  The calls a client can make on an agent, with object literals as descriptors. A call that
  throws is caught by the client; the registration calls throw before they change anything.
\<close>

datatype agent_call =
    Call_registerTool descriptor
  | Call_registerResource descriptor
  | Call_initialize
  | Call_start
  | Call_stop

definition or_unchanged :: "heap \<times> agent \<Rightarrow> (heap \<times> agent) outcome \<Rightarrow> heap \<times> agent" where
  "or_unchanged s r = (case r of Inl e \<Rightarrow> s | Inr s' \<Rightarrow> s')"

fun call :: "agent_call \<Rightarrow> heap \<times> agent \<Rightarrow> heap \<times> agent" where
  "call (Call_registerTool d) s = or_unchanged s (registerTool_literal d s)"
| "call (Call_registerResource d) s = or_unchanged s (registerResource_literal d s)"
| "call Call_initialize s = or_unchanged s (initialize s)"
| "call Call_start s = or_unchanged s (start s)"
| "call Call_stop s = (fst s, stop (snd s))"

definition run_calls :: "agent_call list \<Rightarrow> heap \<times> agent \<Rightarrow> heap \<times> agent" where
  "run_calls cs s = fold call cs s"

text \<open>
  Two calls of \<open>start()\<close> in a row on a new content analysis agent, followed by
  \<open>stop()\<close>: the queue timer and the timers that are set after the first start, after the
  second start, and, with \<open>running\<close>, after the stop.
\<close>

definition second_start_timers ::
  "(string \<Rightarrow> handler_fn) \<Rightarrow>
   ((nat option \<times> nat list) \<times> (nat option \<times> nat list) \<times> (bool \<times> nat option \<times> nat list))
     outcome" where
  "second_start_timers ms =
     and_then (start ([], new_ContentAnalysisAgent ms)) (\<lambda>(h1, a1).
     and_then (start (h1, a1)) (\<lambda>(h2, a2).
     Inr ((queueInterval a1, timers a1), (queueInterval a2, timers a2),
          (running (stop a2), queueInterval (stop a2), timers (stop a2)))))"

text \<open>A new Twitter agent.\<close>

definition tweet_agent :: agent where
  "tweet_agent = new_TwitterAgent stub_methods"

section \<open>Text analysis\<close>

text \<open>
  \<open>ContentAnalysisAgent.analyzeText\<close>: the sentiment and topic heuristics. A text is a string
  of Latin-1 code units. \<open>toLowerCase\<close> maps the capital letters \<open>A\<close> to \<open>Z\<close> and the
  accented capitals (codes 192 to 222 without the multiplication sign 215) to their small
  letters; \<open>\s\<close> matches the code units 9 to 13, 32 and 160.
\<close>

definition e_circumflex :: char where "e_circumflex = CHR 0xEA"
definition o_circumflex :: char where "o_circumflex = CHR 0xF4"

definition lower_char :: "char \<Rightarrow> char" where
  "lower_char c =
     (let n = (of_char c :: nat)
      in if (65 \<le> n \<and> n \<le> 90) \<or> (192 \<le> n \<and> n \<le> 214) \<or> (216 \<le> n \<and> n \<le> 222)
         then char_of (n + 32) else c)"

definition toLowerCase :: "string \<Rightarrow> string" where
  "toLowerCase s = map lower_char s"

definition is_space :: "char \<Rightarrow> bool" where
  "is_space c = (let n = (of_char c :: nat) in (9 \<le> n \<and> n \<le> 13) \<or> n = 32 \<or> n = 160)"

text \<open>
  \<open>s.split(/\s+/)\<close>: the pieces between maximal runs of white space; a run at either end
  of the string is bounded by an empty piece. The flag records that the scan is inside a run,
  \<open>piece\<close> is the piece read so far.
\<close>

fun split_scan :: "bool \<Rightarrow> string \<Rightarrow> string \<Rightarrow> string list" where
  "split_scan in_run piece [] = [piece]"
| "split_scan in_run piece (c # cs) =
     (if is_space c
      then (if in_run then split_scan True piece cs else piece # split_scan True [] cs)
      else split_scan False (piece @ [c]) cs)"

definition split_spaces :: "string \<Rightarrow> string list" where
  "split_spaces s = split_scan False [] s"

fun starts_with :: "string \<Rightarrow> string \<Rightarrow> bool" where
  "starts_with s [] = True"
| "starts_with [] (p # ps) = False"
| "starts_with (c # cs) (p # ps) = (c = p \<and> starts_with cs ps)"

text \<open>\<open>str_includes s pat\<close> is \<open>s.includes(pat)\<close>: \<open>pat\<close> occurs in \<open>s\<close> as a substring.\<close>

fun str_includes :: "string \<Rightarrow> string \<Rightarrow> bool" where
  "str_includes [] pat = (pat = [])"
| "str_includes (c # cs) pat = (starts_with (c # cs) pat \<or> str_includes cs pat)"

definition positiveWords :: "string list" where
  "positiveWords =
     [''bon'', ''super'', ''excellent'', ''g'' @ [e_acute] @ ''nial'', ''fantastique'',
      ''heureux'', ''content'', ''aimer'', ''adorer'']"

definition negativeWords :: "string list" where
  "negativeWords =
     [''mauvais'', ''terrible'', ''horrible'', ''d'' @ [e_acute] @ ''tester'', ''triste'',
      ''d'' @ [e_acute, c_cedilla] @ ''u'', ''nul'', ''m'' @ [e_acute] @ ''diocre'', ''pire'']"

record sentiment =
  score :: rat
  label :: string
  confidence :: rat

text \<open>
  The scores count the words that include a listed word. The quotient and the bounds
  \<open>0.2\<close> and \<open>-0.2\<close> are floating point numbers in the source; on a quotient of two
  counts the comparisons come out as on the rationals.
\<close>

definition positiveScore :: "string list \<Rightarrow> nat" where
  "positiveScore ws = length (filter (\<lambda>word. list_ex (str_includes word) positiveWords) ws)"

definition negativeScore :: "string list \<Rightarrow> nat" where
  "negativeScore ws = length (filter (\<lambda>word. list_ex (str_includes word) negativeWords) ws)"

definition extract_sentiment :: "string \<Rightarrow> sentiment" where
  "extract_sentiment text =
     (let ws = split_spaces (toLowerCase text);
          p = positiveScore ws;
          n = negativeScore ws;
          sc = (if p + n > 0 then (of_nat p - of_nat n) / (of_nat p + of_nat n) else 0)
      in \<lparr>score = sc,
          label = (if sc > 2 / 10 then ''positive''
                   else if sc < - (2 / 10) then ''negative'' else ''neutral''),
          confidence = 7 / 10\<rparr>)"

record topic =
  topic_name :: string
  topic_confidence :: rat
  matchedKeywords :: "string list"

definition technologie_keywords :: "string list" where
  "technologie_keywords =
     [''tech'', ''technologie'', ''ai'', ''ia'', ''intelligence artificielle'', ''ordinateur'',
      ''smartphone'', ''application'']"

definition possibleTopics :: "(string \<times> string list) list" where
  "possibleTopics =
     [(''technologie'', technologie_keywords),
      (''politique'',
         [''politique'', ''gouvernement'', [e_acute] @ ''lection'',
          ''pr'' @ [e_acute] @ ''sident'', ''ministre'', ''d'' @ [e_acute] @ ''bat'']),
      (''sport'',
         [''sport'', ''football'', ''tennis'', ''match'', [e_acute] @ ''quipe'',
          ''championnat'', ''olympique'', ''joueur'']),
      (''divertissement'',
         [''film'', ''s'' @ [e_acute] @ ''rie'', ''musique'', ''concert'', ''acteur'',
          ''chanteur'', ''cin'' @ [e_acute] @ ''ma'',
          ''t'' @ [e_acute] @ ''l'' @ [e_acute] @ ''vision'']),
      (''sant'' @ [e_acute],
         [''sant'' @ [e_acute], ''m'' @ [e_acute] @ ''decine'', ''docteur'',
          ''h'' @ [o_circumflex] @ ''pital'', ''maladie'', ''traitement'',
          ''bien-'' @ [e_circumflex] @ ''tre''])]"

text \<open>
  One step of the \<open>forEach\<close> over \<open>possibleTopics\<close>: the entry pushed for a topic, if any.
  \<open>Math.min(matches.length / 3, 1)\<close> is taken on the rationals.
\<close>

definition topic_entry :: "string \<Rightarrow> string \<times> string list \<Rightarrow> topic list" where
  "topic_entry lowerText t =
     (let matches = filter (str_includes lowerText) (snd t)
      in if length matches > 0
         then [\<lparr>topic_name = fst t,
                 topic_confidence = min (of_nat (length matches) / 3) 1,
                 matchedKeywords = matches\<rparr>]
         else [])"

text \<open>
  \<open>topics.sort((a, b) => b.confidence - a.confidence)\<close>: a stable sort by falling
  confidence.
\<close>

definition extract_topics :: "string \<Rightarrow> topic list" where
  "extract_topics text =
     sort_key (\<lambda>t. - topic_confidence t)
       (concat (map (topic_entry (toLowerCase text)) possibleTopics))"

text \<open>
  The options an analysis is called with (\<open>None\<close>: the key is absent) and the \<open>opts\<close>
  object they are merged into over the defaults.
\<close>

record text_options =
  given_extractSentiment :: "bool option"
  given_extractTopics :: "bool option"
  given_extractEntities :: "bool option"
  given_language :: "string option"

record opts =
  extractSentiment :: bool
  extractTopics :: bool
  extractEntities :: bool
  language :: string

definition default_options :: text_options where
  "default_options =
     \<lparr>given_extractSentiment = None, given_extractTopics = None,
      given_extractEntities = None, given_language = None\<rparr>"

definition merge_options :: "text_options \<Rightarrow> opts" where
  "merge_options options =
     \<lparr>extractSentiment = (case given_extractSentiment options of None \<Rightarrow> True | Some b \<Rightarrow> b),
      extractTopics = (case given_extractTopics options of None \<Rightarrow> True | Some b \<Rightarrow> b),
      extractEntities = (case given_extractEntities options of None \<Rightarrow> True | Some b \<Rightarrow> b),
      language = (case given_language options of None \<Rightarrow> ''fr'' | Some l \<Rightarrow> l)\<rparr>"

text \<open>
  The \<open>content\<close> of the reply of \<open>analyzeText\<close>, without the identifier, the time stamp and
  the entities (random, clock and regular expression matches). \<open>None\<close> is \<open>null\<close>. On a
  string the \<open>try\<close> block does not throw, so the reply is never the error reply.
\<close>

record text_analysis =
  textLength :: nat
  analysis_language :: string
  analysis_sentiment :: "sentiment option"
  analysis_topics :: "topic list option"

definition analyzeText :: "string \<Rightarrow> text_options \<Rightarrow> text_analysis" where
  "analyzeText text options =
     (let opts = merge_options options
      in \<lparr>textLength = length text,
          analysis_language = language opts,
          analysis_sentiment =
            (if extractSentiment opts then Some (extract_sentiment text) else None),
          analysis_topics =
            (if extractTopics opts then Some (extract_topics text) else None)\<rparr>)"

definition happy_text :: string where
  "happy_text = ''Je suis tr'' @ [e_grave] @ ''s content de ce produit''"

definition tech_text :: string where
  "tech_text = ''produit technologique''"

section \<open>Properties of the message router\<close>

lemma get_prop_rpc_error_id: "get_prop (rpc_error i code msg) ''id'' = Some i"
  by (simp add: rpc_error_def)

text \<open>
  Claim C2, as stated: every call of \<open>routeMessage\<close> returns a response that carries the
  original request id, the success path included. It fails on the success path: the value the
  route handler returns is handed back as it is, and a handler that answers \<open>pong\<close> to the
  request with id 7 yields a response without that id.
\<close>

theorem routeMessage_success_without_id:
  "routeMessage ping_router ping_request = Inr (JStr ''pong'')
   \<and> get_prop (JStr ''pong'') ''id'' \<noteq> Some (req_id ping_request)"
  by (simp add: routeMessage_def route_for_def jsmap_get_def ping_router_def ping_request_def
      pong_handler_def)

text \<open>
  Claim C2, amended: a request whose method has no route is answered by an error envelope with
  code -32601 and the request id; a handler that throws a value whose \<open>message\<close> can be read
  is answered by an error envelope with code -32000, the request id and that message after
  \<open>Erreur interne: \<close>; and what a handler returns is returned unchanged, so that the success
  response carries the request id exactly when the handler put it there.
\<close>

theorem routeMessage_envelopes:
  "(route_for r (req_method message) = None \<longrightarrow>
      routeMessage r message =
        Inr (rpc_error (req_id message) (- 32601) (method_not_found_text (req_method message))))
   \<and> (route_for r (req_method message) = Some hnd \<and> hnd message = Inl error
        \<and> error_message error = Some msg \<longrightarrow>
      routeMessage r message =
        Inr (rpc_error (req_id message) (- 32000) (''Erreur interne: '' @ msg)))
   \<and> (route_for r (req_method message) = Some hnd \<and> hnd message = Inr response \<longrightarrow>
      routeMessage r message = Inr response)
   \<and> get_prop (rpc_error (req_id message) code text) ''id'' = Some (req_id message)"
  by (simp add: routeMessage_def get_prop_rpc_error_id)

theorem routeMessage_envelopes_witness:
  "route_for ping_router (JStr ''nope'') = None
   \<and> routeMessage ping_router \<lparr>req_id = JNum 7, req_method = JStr ''nope'', req_params = JNull\<rparr>
       = Inr (rpc_error (JNum 7) (- 32601) (method_not_found_text (JStr ''nope'')))
   \<and> route_for ping_router (JStr ''fail'') = Some failing_handler
   \<and> routeMessage ping_router \<lparr>req_id = JNum 8, req_method = JStr ''fail'', req_params = JNull\<rparr>
       = Inr (rpc_error (JNum 8) (- 32000) ''Erreur interne: boom'')
   \<and> route_for ping_router (JStr ''ping'') = Some pong_handler
   \<and> routeMessage ping_router ping_request = Inr (JStr ''pong'')"
proof -
  have none: "route_for ping_router (JStr ''nope'') = None"
    by (simp add: route_for_def jsmap_get_def ping_router_def)
  have fail: "route_for ping_router (JStr ''fail'') = Some failing_handler"
    by (simp add: route_for_def jsmap_get_def ping_router_def)
  have ping: "route_for ping_router (JStr ''ping'') = Some pong_handler"
    by (simp add: route_for_def jsmap_get_def ping_router_def)
  have msg: "error_message (JError ''Error'' ''boom'') = Some ''boom''"
    by (simp add: error_message_def)
  show ?thesis
    using none fail ping msg
      routeMessage_envelopes [of ping_router
        "\<lparr>req_id = JNum 7, req_method = JStr ''nope'', req_params = JNull\<rparr>"]
      routeMessage_envelopes [of ping_router
        "\<lparr>req_id = JNum 8, req_method = JStr ''fail'', req_params = JNull\<rparr>"
        failing_handler "JError ''Error'' ''boom''" "''boom''"]
      routeMessage_envelopes [of ping_router ping_request pong_handler _ _ "JStr ''pong''"]
    by (simp add: failing_handler_def pong_handler_def ping_request_def)
qed

section \<open>Properties of the capability registry\<close>

lemma call_params_props:
  "get_prop (call_params nm p) ''name'' = Some (JStr nm)"
  "get_prop (call_params nm p) ''params'' = Some p"
  by (simp_all add: call_params_def)

lemma is_error_result_error_result: "is_error_result (error_result msg)"
  by (simp add: is_error_result_def error_result_def)

lemma demo_tool_for:
  "tool_for demo_registry (JStr ''echo'') = Some 0"
  "tool_for demo_registry (JStr ''boom'') = Some 1"
  "tool_for demo_registry (JStr ''nope'') = None"
  "resource_for demo_registry (JStr ''boom'') = Some 1"
  "resource_for demo_registry (JStr ''nope'') = None"
  by (simp_all add: tool_for_def resource_for_def demo_registry_def jsmap_get_def)

lemma demo_heap_nth:
  "demo_heap ! 0 = echo_tool" "demo_heap ! 1 = boom_tool" "demo_heap ! 2 = echo2_tool"
  by (simp_all add: demo_heap_def)

text \<open>
  A handler that throws \<open>null\<close> (or \<open>undefined\<close>) defeats both \<open>catch\<close> blocks that
  build an error reply: reading \<open>error.message\<close> throws inside the block.
\<close>

lemma tool_call_handler_throws_null:
  "get_prop params ''name'' = Some (JStr T) \<Longrightarrow> get_prop params ''params'' = Some toolParams
   \<Longrightarrow> jsmap_get T (reg_tools reg) = Some tool \<Longrightarrow> handler (h ! tool) = Some f
   \<Longrightarrow> f toolParams = Inl JNull \<Longrightarrow> tool_call h reg params = Inl nullish_TypeError"
  by (simp add: tool_call_def tool_for_def invoke_def error_message_def)

lemma routeMessage_handler_throws_null:
  "route_for r (req_method message) = Some hnd \<Longrightarrow> hnd message = Inl JNull
   \<Longrightarrow> routeMessage r message = Inl nullish_TypeError"
  by (simp add: routeMessage_def error_message_def)

text \<open>
  Claim C1, as stated: for a registered tool the call handler returns a result of shape
  \<open>{content: ...}\<close> or \<open>{isError: true, content: {message}}\<close>. It fails for the tool
  \<open>echo\<close> whose handler is \<open>params => params\<close>: called with \<open>{x: 1}\<close> the registry returns
  \<open>{x: 1}\<close>, which has neither shape.
\<close>

theorem tool_call_echo_unwrapped:
  "tool_call demo_heap demo_registry (call_params ''echo'' (JObj [(''x'', JNum 1)]))
     = Inr (JObj [(''x'', JNum 1)])
   \<and> \<not> has_content (JObj [(''x'', JNum 1)])
   \<and> \<not> is_error_result (JObj [(''x'', JNum 1)])"
  by (simp add: tool_call_def call_params_props demo_tool_for demo_heap_nth invoke_def
      echo_tool_def echo_fn_def has_content_def is_error_result_def)

text \<open>
  Claim C1, amended: for every tool name present in the registry's tools map and every
  parameters value, the call handler returns what the tool's handler returns, unchanged; and
  when the handler throws a value whose \<open>message\<close> can be read, the exception is caught and
  the call returns \<open>{isError: true, content: {message}}\<close> with that message after
  \<open>Erreur: \<close>.
\<close>

theorem tool_call_registered:
  "get_prop params ''name'' = Some (JStr T) \<and> get_prop params ''params'' = Some toolParams
   \<and> jsmap_get T (reg_tools reg) = Some tool \<and> handler (h ! tool) = Some f \<longrightarrow>
     (f toolParams = Inr result \<longrightarrow> tool_call h reg params = Inr result)
     \<and> (f toolParams = Inl error \<and> error_message error = Some msg \<longrightarrow>
          tool_call h reg params = Inr (error_result (''Erreur: '' @ msg))
          \<and> is_error_result (error_result (''Erreur: '' @ msg)))"
  by (simp add: tool_call_def tool_for_def invoke_def is_error_result_error_result)

theorem tool_call_registered_witness:
  "jsmap_get ''echo'' (reg_tools demo_registry) = Some 0
   \<and> tool_call demo_heap demo_registry (call_params ''echo'' (JNum 5)) = Inr (JNum 5)
   \<and> jsmap_get ''boom'' (reg_tools demo_registry) = Some 1
   \<and> tool_call demo_heap demo_registry (call_params ''boom'' JNull)
       = Inr (error_result ''Erreur: boom'')"
proof -
  have e: "jsmap_get ''echo'' (reg_tools demo_registry) = Some 0"
    by (simp add: demo_registry_def jsmap_get_def)
  have b: "jsmap_get ''boom'' (reg_tools demo_registry) = Some 1"
    by (simp add: demo_registry_def jsmap_get_def)
  have he: "handler (demo_heap ! 0) = Some echo_fn"
    by (simp add: demo_heap_def echo_tool_def)
  have hb: "handler (demo_heap ! 1) = Some boom_fn"
    by (simp add: demo_heap_def boom_tool_def)
  have m: "error_message (JError ''Error'' ''boom'') = Some ''boom''"
    by (simp add: error_message_def)
  show ?thesis
    using e b he hb m
      tool_call_registered [of "call_params ''echo'' (JNum 5)" "''echo''" "JNum 5"
        demo_registry 0 demo_heap echo_fn "JNum 5"]
      tool_call_registered [of "call_params ''boom'' JNull" "''boom''" JNull
        demo_registry 1 demo_heap boom_fn _ "JError ''Error'' ''boom''" "''boom''"]
    by (simp add: call_params_props echo_fn_def boom_fn_def)
qed

text \<open>
  Claim C3, as stated: a call for a name absent from the registry is answered by a
  structured error envelope and never throws. It fails: for the absent name \<open>nope\<close> both the
  tool call handler and the resource get handler throw an \<open>Error\<close>.
\<close>

theorem absent_name_throws_example:
  "tool_call demo_heap demo_registry (call_params ''nope'' JNull)
     = Inl (JError ''Error'' (tool_not_found_text (JStr ''nope'')))
   \<and> resource_get demo_heap demo_registry (call_params ''nope'' JNull)
     = Inl (JError ''Error'' (resource_not_found_text (JStr ''nope'')))"
  by (simp add: tool_call_def resource_get_def call_params_props demo_tool_for)

text \<open>
  Claim C3, amended: for every name absent from the registry, invoking a tool by that name
  throws an \<open>Error\<close> with the message \<open>Outil 'name' non trouve\<close> (with an acute accent on the
  last letter) and getting a resource by that name throws an \<open>Error\<close> with the message
  \<open>Ressource 'name' non trouvee\<close>; the registry itself builds no error envelope for it.
\<close>

theorem absent_name_throws:
  "get_prop params ''name'' = Some nm \<and> get_prop params ''params'' = Some p \<longrightarrow>
     (tool_for reg nm = None \<longrightarrow>
        tool_call h reg params = Inl (JError ''Error'' (tool_not_found_text nm)))
     \<and> (resource_for reg nm = None \<longrightarrow>
        resource_get h reg params = Inl (JError ''Error'' (resource_not_found_text nm)))"
  by (simp add: tool_call_def resource_get_def)

theorem absent_name_throws_witness:
  "tool_for demo_registry (JStr ''nope'') = None
   \<and> resource_for demo_registry (JStr ''nope'') = None
   \<and> tool_call demo_heap demo_registry (call_params ''nope'' JNull)
       = Inl (JError ''Error'' (tool_not_found_text (JStr ''nope'')))
   \<and> resource_get demo_heap demo_registry (call_params ''nope'' JNull)
       = Inl (JError ''Error'' (resource_not_found_text (JStr ''nope'')))"
  using absent_name_throws [of "call_params ''nope'' JNull" "JStr ''nope''" JNull
      demo_registry demo_heap]
  by (simp add: call_params_props demo_tool_for)



section \<open>Properties of \<open>Map\<close> objects and of registration\<close>

lemma jsmap_get_set_same: "jsmap_get k (jsmap_set k v m) = Some v"
  by (induction m) (auto simp: jsmap_get_def)

lemma jsmap_get_set_other: "k' \<noteq> k \<Longrightarrow> jsmap_get k' (jsmap_set k v m) = jsmap_get k' m"
  by (induction m) (auto simp: jsmap_get_def)

lemma keys_jsmap_set: "set (map fst (jsmap_set k v m)) = insert k (set (map fst m))"
  by (induction m) auto

lemma jsmap_ok_set: "jsmap_ok m \<Longrightarrow> jsmap_ok (jsmap_set k v m)"
  unfolding jsmap_ok_def
proof (induction m)
  case Nil
  show ?case by simp
next
  case (Cons p ps)
  then show ?case
    using keys_jsmap_set [of k v ps] by (cases "fst p = k") auto
qed

lemma length_jsmap_set_present:
  "jsmap_has k m \<Longrightarrow> length (jsmap_set k v m) = length m"
  by (induction m) (auto simp: jsmap_has_def)

lemma length_jsmap_set_absent:
  "\<not> jsmap_has k m \<Longrightarrow> length (jsmap_set k v m) = Suc (length m)"
  by (induction m) (auto simp: jsmap_has_def)

lemma jsmap_has_set: "jsmap_has k (jsmap_set k v m)"
  by (simp add: jsmap_has_def keys_jsmap_set del: set_map)

lemma jsmap_has_get: "jsmap_has k m \<longleftrightarrow> jsmap_get k m \<noteq> None"
  by (induction m) (auto simp: jsmap_has_def jsmap_get_def)

lemma entries_of_key_once:
  "jsmap_ok m \<Longrightarrow> jsmap_has k m \<Longrightarrow> length (filter (\<lambda>p. fst p = k) m) = 1"
  unfolding jsmap_ok_def jsmap_has_def
proof (induction m)
  case Nil
  then show ?case by simp
next
  case (Cons p ps)
  show ?case
  proof (cases "fst p = k")
    case True
    with Cons.prems have "k \<notin> set (map fst ps)" by auto
    then have "filter (\<lambda>p. fst p = k) ps = []"
      by (auto simp: filter_empty_conv)
    with True show ?thesis by simp
  next
    case False
    with Cons show ?thesis by auto
  qed
qed

text \<open>
  Claim C8: registering two tools with the same name leaves exactly one entry for that name
  and the later registration wins. After \<open>registerTool(t1)\<close> and then \<open>registerTool(t2)\<close>
  with the same name, looking the name up yields \<open>t2\<close>, the map holds one entry under the
  name, and the tool list is as long as it was after the first registration.
\<close>

theorem registerTool_same_name_overwrites:
  "jsmap_ok (reg_tools reg)
   \<and> registry_registerTool h reg t1 = Inr reg1
   \<and> registry_registerTool h reg1 t2 = Inr reg2
   \<and> name (h ! t1) = Some n \<and> name (h ! t2) = Some n \<longrightarrow>
     tool_for reg2 (JStr n) = Some t2
     \<and> entries_named n reg2 = 1
     \<and> length (tool_list reg2) = length (tool_list reg1)
     \<and> jsmap_ok (reg_tools reg2)"
proof (intro impI, elim conjE)
  assume ok: "jsmap_ok (reg_tools reg)"
    and r1: "registry_registerTool h reg t1 = Inr reg1"
    and r2: "registry_registerTool h reg1 t2 = Inr reg2"
    and n1: "name (h ! t1) = Some n" and n2: "name (h ! t2) = Some n"
  from r1 n1 have reg1: "reg_tools reg1 = jsmap_set n t1 (reg_tools reg)"
    by (auto simp: registry_registerTool_def split: if_splits)
  from r2 n2 have reg2: "reg_tools reg2 = jsmap_set n t2 (reg_tools reg1)"
    by (auto simp: registry_registerTool_def split: if_splits)
  have ok1: "jsmap_ok (reg_tools reg1)"
    using ok reg1 by (simp add: jsmap_ok_set)
  have ok2: "jsmap_ok (reg_tools reg2)"
    using ok1 reg2 by (simp add: jsmap_ok_set)
  have has1: "jsmap_has n (reg_tools reg1)"
    using reg1 by (simp add: jsmap_has_set)
  have has2: "jsmap_has n (reg_tools reg2)"
    using reg2 by (simp add: jsmap_has_set)
  have "tool_for reg2 (JStr n) = Some t2"
    using reg2 by (simp add: tool_for_def jsmap_get_set_same)
  moreover have "entries_named n reg2 = 1"
    unfolding entries_named_def using ok2 has2 by (rule entries_of_key_once)
  moreover have "length (tool_list reg2) = length (tool_list reg1)"
    using reg2 has1 by (simp add: tool_list_def jsmap_values_def length_jsmap_set_present)
  ultimately show "tool_for reg2 (JStr n) = Some t2 \<and> entries_named n reg2 = 1
     \<and> length (tool_list reg2) = length (tool_list reg1) \<and> jsmap_ok (reg_tools reg2)"
    using ok2 by simp
qed

theorem registerTool_same_name_overwrites_witness:
  "jsmap_ok (reg_tools new_registry)
   \<and> registry_registerTool demo_heap new_registry 0 = Inr \<lparr>reg_tools = [(''echo'', 0)], reg_resources = []\<rparr>
   \<and> registry_registerTool demo_heap \<lparr>reg_tools = [(''echo'', 0)], reg_resources = []\<rparr> 2
       = Inr \<lparr>reg_tools = [(''echo'', 2)], reg_resources = []\<rparr>
   \<and> name (demo_heap ! 0) = Some ''echo'' \<and> name (demo_heap ! 2) = Some ''echo''
   \<and> tool_for \<lparr>reg_tools = [(''echo'', 2)], reg_resources = []\<rparr> (JStr ''echo'') = Some 2
   \<and> entries_named ''echo'' \<lparr>reg_tools = [(''echo'', 2)], reg_resources = []\<rparr> = 1
   \<and> length (tool_list \<lparr>reg_tools = [(''echo'', 2)], reg_resources = []\<rparr>) = 1"
proof -
  have ok: "jsmap_ok (reg_tools new_registry)"
    by (simp add: jsmap_ok_def new_registry_def)
  have r1: "registry_registerTool demo_heap new_registry 0
              = Inr \<lparr>reg_tools = [(''echo'', 0)], reg_resources = []\<rparr>"
    by (simp add: registry_registerTool_def demo_heap_def echo_tool_def falsy_def
        new_registry_def)
  have r2: "registry_registerTool demo_heap \<lparr>reg_tools = [(''echo'', 0)], reg_resources = []\<rparr> 2
              = Inr \<lparr>reg_tools = [(''echo'', 2)], reg_resources = []\<rparr>"
    by (simp add: registry_registerTool_def demo_heap_def echo2_tool_def falsy_def)
  have n1: "name (demo_heap ! 0) = Some ''echo''"
    by (simp add: demo_heap_def echo_tool_def)
  have n2: "name (demo_heap ! 2) = Some ''echo''"
    by (simp add: demo_heap_def echo2_tool_def)
  show ?thesis
    using ok r1 r2 n1 n2
      registerTool_same_name_overwrites [of new_registry demo_heap 0
        "\<lparr>reg_tools = [(''echo'', 0)], reg_resources = []\<rparr>" 2
        "\<lparr>reg_tools = [(''echo'', 2)], reg_resources = []\<rparr>" "''echo''"]
    by (simp add: tool_list_def jsmap_values_def)
qed

section \<open>Properties of the middleware\<close>

lemma keys_jsmap_delete: "set (map fst (jsmap_delete k m)) = set (map fst m) - {k}"
  by (induction m) (auto simp: jsmap_delete_def)

lemma set_jsmap_delete: "set (jsmap_delete k m) \<subseteq> set m"
  by (auto simp: jsmap_delete_def)

lemma keys_unregisterTool:
  "set (map fst (reg_tools (registry_unregisterTool reg nm)))
     = set (map fst (reg_tools reg)) - {k. nm = Some k}"
  by (cases nm) (auto simp: registry_unregisterTool_def keys_jsmap_delete jsmap_has_def
      simp del: set_map)

lemma entries_unregisterTool:
  "set (reg_tools (registry_unregisterTool reg nm)) \<subseteq> set (reg_tools reg)"
  by (cases nm) (auto simp: registry_unregisterTool_def jsmap_delete_def)

lemma resources_unregisterTool:
  "reg_resources (registry_unregisterTool reg nm) = reg_resources reg"
  by (cases nm) (simp_all add: registry_unregisterTool_def)

lemma keys_unregisterResource:
  "set (map fst (reg_resources (registry_unregisterResource reg nm)))
     = set (map fst (reg_resources reg)) - {k. nm = Some k}"
  by (cases nm) (auto simp: registry_unregisterResource_def keys_jsmap_delete jsmap_has_def
      simp del: set_map)

lemma entries_unregisterResource:
  "set (reg_resources (registry_unregisterResource reg nm)) \<subseteq> set (reg_resources reg)"
  by (cases nm) (auto simp: registry_unregisterResource_def jsmap_delete_def)

lemma tools_unregisterResource:
  "reg_tools (registry_unregisterResource reg nm) = reg_tools reg"
  by (cases nm) (simp_all add: registry_unregisterResource_def)

lemma keys_unregisterTools:
  "set (map fst (reg_tools (unregisterTools h ts reg)))
     = set (map fst (reg_tools reg)) - {k. \<exists>t \<in> set ts. name (h ! t) = Some k}"
  unfolding unregisterTools_def
proof (induction ts arbitrary: reg)
  case Nil
  show ?case by simp
next
  case (Cons t ts)
  show ?case
    by (simp only: fold_simps Cons.IH keys_unregisterTool) auto
qed

lemma entries_unregisterTools:
  "set (reg_tools (unregisterTools h ts reg)) \<subseteq> set (reg_tools reg)"
  unfolding unregisterTools_def
proof (induction ts arbitrary: reg)
  case Nil
  show ?case by simp
next
  case (Cons t ts)
  show ?case
    using Cons.IH [of "registry_unregisterTool reg (name (h ! t))"]
      entries_unregisterTool [of reg "name (h ! t)"]
    by auto
qed

lemma resources_unregisterTools:
  "reg_resources (unregisterTools h ts reg) = reg_resources reg"
  unfolding unregisterTools_def
  by (induction ts arbitrary: reg) (simp_all add: resources_unregisterTool)

lemma keys_unregisterResources:
  "set (map fst (reg_resources (unregisterResources h rs reg)))
     = set (map fst (reg_resources reg)) - {k. \<exists>t \<in> set rs. name (h ! t) = Some k}"
  unfolding unregisterResources_def
proof (induction rs arbitrary: reg)
  case Nil
  show ?case by simp
next
  case (Cons t ts)
  show ?case
    by (simp only: fold_simps Cons.IH keys_unregisterResource) auto
qed

lemma entries_unregisterResources:
  "set (reg_resources (unregisterResources h rs reg)) \<subseteq> set (reg_resources reg)"
  unfolding unregisterResources_def
proof (induction rs arbitrary: reg)
  case Nil
  show ?case by simp
next
  case (Cons t ts)
  show ?case
    using Cons.IH [of "registry_unregisterResource reg (name (h ! t))"]
      entries_unregisterResource [of reg "name (h ! t)"]
    by auto
qed

lemma tools_unregisterResources:
  "reg_tools (unregisterResources h rs reg) = reg_tools reg"
  unfolding unregisterResources_def
  by (induction rs arbitrary: reg) (simp_all add: tools_unregisterResource)

lemma absent_key_not_listed:
  "filed_by_name h m \<Longrightarrow> set m' \<subseteq> set m
   \<Longrightarrow> set (map fst m') \<inter> {k. \<exists>t \<in> set ts. name (h ! t) = Some k} = {}
   \<Longrightarrow> set (jsmap_values m') \<inter> set ts = {}"
proof (rule ccontr)
  assume filed: "filed_by_name h m" and sub: "set m' \<subseteq> set m"
    and gone: "set (map fst m') \<inter> {k. \<exists>t \<in> set ts. name (h ! t) = Some k} = {}"
    and "set (jsmap_values m') \<inter> set ts \<noteq> {}"
  then obtain k t where in': "(k, t) \<in> set m'" and t: "t \<in> set ts"
    by (auto simp: jsmap_values_def)
  from in' sub have "(k, t) \<in> set m" by blast
  with filed have "name (h ! t) = Some k"
    by (auto simp: filed_by_name_def list_all_iff)
  with t have "k \<in> {k. \<exists>t \<in> set ts. name (h ! t) = Some k}" by blast
  moreover from in' have "k \<in> set (map fst m')" by force
  ultimately show False using gone by blast
qed

lemma tool_for_None_iff:
  "tool_for reg (JStr k) = None \<longleftrightarrow> k \<notin> set (map fst (reg_tools reg))"
  by (simp add: tool_for_def jsmap_get_def map_of_eq_None_iff)

lemma resource_for_None_iff:
  "resource_for reg (JStr k) = None \<longleftrightarrow> k \<notin> set (map fst (reg_resources reg))"
  by (simp add: resource_for_def jsmap_get_def map_of_eq_None_iff)

lemma unregisterAgent_tools:
  assumes "jsmap_get ident (agents mw) = Some (AgentObj a)"
  shows "unregistered_tools h (capabilityRegistry (unregisterAgent h mw ident)) (getTools a)"
proof -
  have reg: "reg_tools (capabilityRegistry (unregisterAgent h mw ident))
               = reg_tools (unregisterTools h (getTools a) (capabilityRegistry mw))"
    using assms
    by (simp add: unregisterAgent_def getTools_of_def getResources_of_def Let_def
        tools_unregisterResources)
  show ?thesis
    unfolding unregistered_tools_def list_all_iff
  proof
    fix t assume t: "t \<in> set (getTools a)"
    show "case name (h ! t) of None \<Rightarrow> True
          | Some k \<Rightarrow> tool_for (capabilityRegistry (unregisterAgent h mw ident)) (JStr k) = None"
    proof (cases "name (h ! t)")
      case None
      then show ?thesis by simp
    next
      case (Some k)
      have "k \<notin> set (map fst (reg_tools (unregisterTools h (getTools a)
                (capabilityRegistry mw))))"
        using t Some by (simp only: keys_unregisterTools) blast
      with Some show ?thesis
        by (simp add: tool_for_None_iff reg)
    qed
  qed
qed

lemma unregisterAgent_resources:
  assumes "jsmap_get ident (agents mw) = Some (AgentObj a)"
  shows "unregistered_resources h (capabilityRegistry (unregisterAgent h mw ident))
           (getResources a)"
proof -
  have reg: "reg_resources (capabilityRegistry (unregisterAgent h mw ident))
               = reg_resources (unregisterResources h (getResources a)
                   (unregisterTools h (getTools a) (capabilityRegistry mw)))"
    using assms
    by (simp add: unregisterAgent_def getTools_of_def getResources_of_def Let_def)
  show ?thesis
    unfolding unregistered_resources_def list_all_iff
  proof
    fix t assume t: "t \<in> set (getResources a)"
    show "case name (h ! t) of None \<Rightarrow> True
          | Some k \<Rightarrow>
              resource_for (capabilityRegistry (unregisterAgent h mw ident)) (JStr k) = None"
    proof (cases "name (h ! t)")
      case None
      then show ?thesis by simp
    next
      case (Some k)
      have "k \<notin> set (map fst (reg_resources (unregisterResources h (getResources a)
                (unregisterTools h (getTools a) (capabilityRegistry mw)))))"
        using t Some by (simp only: keys_unregisterResources) blast
      with Some show ?thesis
        by (simp add: resource_for_None_iff reg)
    qed
  qed
qed

lemma unregisterAgent_tool_list:
  assumes "jsmap_get ident (agents mw) = Some (AgentObj a)"
    and "filed_by_name h (reg_tools (capabilityRegistry mw))"
  shows "disjoint_lists (tool_list (capabilityRegistry (unregisterAgent h mw ident)))
           (getTools a)"
proof -
  have reg: "reg_tools (capabilityRegistry (unregisterAgent h mw ident))
               = reg_tools (unregisterTools h (getTools a) (capabilityRegistry mw))"
    using assms(1)
    by (simp add: unregisterAgent_def getTools_of_def getResources_of_def Let_def
        tools_unregisterResources)
  have "set (jsmap_values (reg_tools (unregisterTools h (getTools a) (capabilityRegistry mw))))
          \<inter> set (getTools a) = {}"
    using assms(2) entries_unregisterTools
  proof (rule absent_key_not_listed)
    show "set (map fst (reg_tools (unregisterTools h (getTools a) (capabilityRegistry mw))))
            \<inter> {k. \<exists>t \<in> set (getTools a). name (h ! t) = Some k} = {}"
      by (simp only: keys_unregisterTools) blast
  qed
  then show ?thesis
    by (auto simp: disjoint_lists_def list_all_iff tool_list_def reg)
qed

lemma unregisterAgent_resource_list:
  assumes "jsmap_get ident (agents mw) = Some (AgentObj a)"
    and "filed_by_name h (reg_resources (capabilityRegistry mw))"
  shows "disjoint_lists (resource_list (capabilityRegistry (unregisterAgent h mw ident)))
           (getResources a)"
proof -
  have reg: "reg_resources (capabilityRegistry (unregisterAgent h mw ident))
               = reg_resources (unregisterResources h (getResources a)
                   (unregisterTools h (getTools a) (capabilityRegistry mw)))"
    using assms(1)
    by (simp add: unregisterAgent_def getTools_of_def getResources_of_def Let_def)
  have filed: "filed_by_name h (reg_resources (unregisterTools h (getTools a)
                 (capabilityRegistry mw)))"
    using assms(2) by (simp add: resources_unregisterTools)
  have "set (jsmap_values (reg_resources (unregisterResources h (getResources a)
               (unregisterTools h (getTools a) (capabilityRegistry mw)))))
          \<inter> set (getResources a) = {}"
    using filed entries_unregisterResources
  proof (rule absent_key_not_listed)
    show "set (map fst (reg_resources (unregisterResources h (getResources a)
               (unregisterTools h (getTools a) (capabilityRegistry mw)))))
            \<inter> {k. \<exists>t \<in> set (getResources a). name (h ! t) = Some k} = {}"
      by (simp only: keys_unregisterResources) blast
  qed
  then show ?thesis
    by (auto simp: disjoint_lists_def list_all_iff resource_list_def reg)
qed

lemma unregisterAgent_drops_agent:
  "\<not> jsmap_has ident (agents (unregisterAgent h mw ident))"
proof (cases "jsmap_get ident (agents mw)")
  case None
  then have "agents (unregisterAgent h mw ident) = agents mw"
    by (simp add: unregisterAgent_def)
  with None show ?thesis by (simp add: jsmap_has_get)
next
  case (Some obj)
  then have "agents (unregisterAgent h mw ident) = jsmap_delete ident (agents mw)"
    by (simp add: unregisterAgent_def Let_def)
  then show ?thesis
    by (simp add: jsmap_has_def keys_jsmap_delete del: set_map)
qed

lemma unregisterAgent_absent:
  "jsmap_get ident (agents mw) = None
   \<Longrightarrow> unregisterAgent h mw ident = mw\<lparr>mw_log := mw_log mw @ [LWarn]\<rparr>"
  by (simp add: unregisterAgent_def)

text \<open>
  Registry maps are filed by name from the empty registry on: registration files the entry
  under the descriptor's name, and removal only drops entries.
\<close>

lemma set_jsmap_set: "set (jsmap_set k v m) \<subseteq> insert (k, v) (set m)"
  by (induction m) auto

lemma filed_by_name_new: "filed_by_name h []"
  by (simp add: filed_by_name_def)

lemma filed_by_name_subset:
  "filed_by_name h m \<Longrightarrow> set m' \<subseteq> set m \<Longrightarrow> filed_by_name h m'"
  by (auto simp: filed_by_name_def list_all_iff)

lemma filed_by_name_set:
  assumes "filed_by_name h m" and "name (h ! t) = Some k"
  shows "filed_by_name h (jsmap_set k t m)"
  unfolding filed_by_name_def list_all_iff
proof
  fix p assume "p \<in> set (jsmap_set k t m)"
  with set_jsmap_set [of k t m] have "p = (k, t) \<or> p \<in> set m" by auto
  then show "name (h ! snd p) = Some (fst p)"
    using assms by (auto simp: filed_by_name_def list_all_iff)
qed

lemma registry_registerTool_filed:
  assumes "filed_by_name h (reg_tools reg)" and "registry_registerTool h reg t = Inr reg'"
  shows "filed_by_name h (reg_tools reg')"
proof -
  from assms(2) obtain k where k: "name (h ! t) = Some k"
    and reg': "reg_tools reg' = jsmap_set k t (reg_tools reg)"
    by (cases "name (h ! t)") (auto simp: registry_registerTool_def falsy_def split: if_splits)
  from filed_by_name_set [OF assms(1) k] reg' show ?thesis by simp
qed

lemma registry_registerResource_filed:
  assumes "filed_by_name h (reg_resources reg)"
    and "registry_registerResource h reg t = Inr reg'"
  shows "filed_by_name h (reg_resources reg')"
proof -
  from assms(2) obtain k where k: "name (h ! t) = Some k"
    and reg': "reg_resources reg' = jsmap_set k t (reg_resources reg)"
    by (cases "name (h ! t)")
      (auto simp: registry_registerResource_def falsy_def split: if_splits)
  from filed_by_name_set [OF assms(1) k] reg' show ?thesis by simp
qed

lemma registry_unregisterTool_filed:
  "filed_by_name h (reg_tools reg)
   \<Longrightarrow> filed_by_name h (reg_tools (registry_unregisterTool reg nm))"
  by (erule filed_by_name_subset) (rule entries_unregisterTool)

lemma registry_unregisterResource_filed:
  "filed_by_name h (reg_resources reg)
   \<Longrightarrow> filed_by_name h (reg_resources (registry_unregisterResource reg nm))"
  by (erule filed_by_name_subset) (rule entries_unregisterResource)

text \<open>
  The tool and resource lists only lose entries by \<open>unregisterAgent\<close>, so an entry owned by
  an id is gone from them whenever all entries the id owns were the agent's.
\<close>

lemma unregisterAgent_tool_list_subset:
  assumes "jsmap_get ident (agents mw) = Some (AgentObj a)"
  shows "set (tool_list (capabilityRegistry (unregisterAgent h mw ident)))
           \<subseteq> set (tool_list (capabilityRegistry mw))"
proof -
  have reg: "reg_tools (capabilityRegistry (unregisterAgent h mw ident))
               = reg_tools (unregisterTools h (getTools a) (capabilityRegistry mw))"
    using assms
    by (simp add: unregisterAgent_def getTools_of_def getResources_of_def Let_def
        tools_unregisterResources)
  from entries_unregisterTools [of h "getTools a" "capabilityRegistry mw"]
  show ?thesis
    by (auto simp: tool_list_def jsmap_values_def reg)
qed

lemma unregisterAgent_resource_list_subset:
  assumes "jsmap_get ident (agents mw) = Some (AgentObj a)"
  shows "set (resource_list (capabilityRegistry (unregisterAgent h mw ident)))
           \<subseteq> set (resource_list (capabilityRegistry mw))"
proof -
  have reg: "reg_resources (capabilityRegistry (unregisterAgent h mw ident))
               = reg_resources (unregisterResources h (getResources a)
                   (unregisterTools h (getTools a) (capabilityRegistry mw)))"
    using assms
    by (simp add: unregisterAgent_def getTools_of_def getResources_of_def Let_def)
  from entries_unregisterResources [of h "getResources a"
      "unregisterTools h (getTools a) (capabilityRegistry mw)"]
  show ?thesis
    by (auto simp: resource_list_def jsmap_values_def reg resources_unregisterTools)
qed

lemma none_owned_by_left:
  assumes "set rs' \<subseteq> set rs" and "owned_within h owner rs own"
    and "disjoint_lists rs' own"
  shows "none_owned_by h owner rs'"
  unfolding none_owned_by_def list_all_iff
proof
  fix r assume r: "r \<in> set rs'"
  show "\<not> owned_by h owner r"
  proof
    assume "owned_by h owner r"
    moreover from r assms(1) have "r \<in> set rs" by blast
    ultimately have "r \<in> set own"
      using assms(2) by (auto simp: owned_within_def list_all_iff)
    with r assms(3) show False
      by (auto simp: disjoint_lists_def list_all_iff)
  qed
qed

lemma unregisterAgent_none_owned_tools:
  assumes "jsmap_get ident (agents mw) = Some (AgentObj a)"
    and "filed_by_name h (reg_tools (capabilityRegistry mw))"
    and "owned_within h owner (tool_list (capabilityRegistry mw)) (getTools a)"
  shows "none_owned_by h owner (tool_list (capabilityRegistry (unregisterAgent h mw ident)))"
  using unregisterAgent_tool_list_subset [OF assms(1)] assms(3)
    unregisterAgent_tool_list [OF assms(1) assms(2)]
  by (rule none_owned_by_left)

lemma unregisterAgent_none_owned_resources:
  assumes "jsmap_get ident (agents mw) = Some (AgentObj a)"
    and "filed_by_name h (reg_resources (capabilityRegistry mw))"
    and "owned_within h owner (resource_list (capabilityRegistry mw)) (getResources a)"
  shows "none_owned_by h owner
           (resource_list (capabilityRegistry (unregisterAgent h mw ident)))"
  using unregisterAgent_resource_list_subset [OF assms(1)] assms(3)
    unregisterAgent_resource_list [OF assms(1) assms(2)]
  by (rule none_owned_by_left)

text \<open>
  Claim C6, as stated: after \<open>unregisterAgent(id)\<close> the tool and resource lists of the
  registry contain no entry owned by \<open>id\<close>. It fails when the id was registered twice:
  \<open>registerAgent\<close> replaces the agent under the id and leaves the tools of the replaced
  agent in the registry, and \<open>unregisterAgent\<close> removes the names of the lists of the agent
  it finds under the id. The tool \<open>one\<close> of the replaced agent, with \<open>agentId\<close> \<open>a\<close>,
  is still listed after \<open>unregisterAgent('a')\<close>.
\<close>

theorem unregisterAgent_leaves_replaced_agents_tool:
  "replaced_agent_listing = Inr (replaced_heap, [1])
   \<and> name (replaced_heap ! 1) = Some ''one''
   \<and> agentId (replaced_heap ! 1) = Some ''a''
   \<and> \<not> none_owned_by replaced_heap ''a'' [1]"
  by (simp add: replaced_agent_listing_def replaced_heap_def registerTool_literal_def alloc_def
      agent_registerTool_def falsy_def tool_one_def tool_two_def new_BaseAgent_def
      registerAgent_def new_middleware_def new_registry_def jsmap_has_def getTools_of_def
      getResources_of_def getTools_def getResources_def registry_registerTool_def
      unregisterAgent_def jsmap_get_def unregisterTools_def unregisterResources_def
      registry_unregisterTool_def jsmap_delete_def tool_list_def jsmap_values_def
      none_owned_by_def owned_by_def)

text \<open>
  Claim C6, amended: for an agent registered in the middleware under an id,
  \<open>unregisterAgent(id)\<close> removes from the tools map the name of every entry of that agent's
  \<open>getTools()\<close> list and from the resources map the name of every entry of its
  \<open>getResources()\<close> list, and drops the agent from the agent map. None of these names is
  found any more; the entries of the registry being filed under their descriptors' names,
  the tool list contains no entry of \<open>getTools()\<close> and the resource list no entry of
  \<open>getResources()\<close>; and a list contains no entry owned by an id whenever every entry that
  id owned in it was in the agent's list of the same kind. With an id that is absent the
  call logs a warning and leaves the registry and the agent map as they are.
\<close>

theorem unregisterAgent_removes_capabilities:
  "(jsmap_get ident (agents mw) = Some (AgentObj a) \<longrightarrow>
      unregistered_tools h (capabilityRegistry (unregisterAgent h mw ident)) (getTools a)
      \<and> unregistered_resources h (capabilityRegistry (unregisterAgent h mw ident))
           (getResources a)
      \<and> (filed_by_name h (reg_tools (capabilityRegistry mw)) \<longrightarrow>
           disjoint_lists (tool_list (capabilityRegistry (unregisterAgent h mw ident)))
             (getTools a))
      \<and> (filed_by_name h (reg_resources (capabilityRegistry mw)) \<longrightarrow>
           disjoint_lists (resource_list (capabilityRegistry (unregisterAgent h mw ident)))
             (getResources a))
      \<and> (filed_by_name h (reg_tools (capabilityRegistry mw))
           \<and> owned_within h owner (tool_list (capabilityRegistry mw)) (getTools a) \<longrightarrow>
           none_owned_by h owner
             (tool_list (capabilityRegistry (unregisterAgent h mw ident))))
      \<and> (filed_by_name h (reg_resources (capabilityRegistry mw))
           \<and> owned_within h owner (resource_list (capabilityRegistry mw)) (getResources a) \<longrightarrow>
           none_owned_by h owner
             (resource_list (capabilityRegistry (unregisterAgent h mw ident))))
      \<and> \<not> jsmap_has ident (agents (unregisterAgent h mw ident)))
   \<and> (\<not> jsmap_has ident (agents mw) \<longrightarrow>
        agents (unregisterAgent h mw ident) = agents mw
        \<and> capabilityRegistry (unregisterAgent h mw ident) = capabilityRegistry mw
        \<and> mw_log (unregisterAgent h mw ident) = mw_log mw @ [LWarn])"
proof (intro conjI impI)
  assume "\<not> jsmap_has ident (agents mw)"
  then have none: "jsmap_get ident (agents mw) = None"
    by (simp add: jsmap_has_get)
  show "agents (unregisterAgent h mw ident) = agents mw"
    by (simp add: unregisterAgent_absent [OF none])
  show "capabilityRegistry (unregisterAgent h mw ident) = capabilityRegistry mw"
    by (simp add: unregisterAgent_absent [OF none])
  show "mw_log (unregisterAgent h mw ident) = mw_log mw @ [LWarn]"
    by (simp add: unregisterAgent_absent [OF none])
qed (simp_all add: unregisterAgent_tools unregisterAgent_resources unregisterAgent_tool_list
    unregisterAgent_resource_list unregisterAgent_drops_agent
    unregisterAgent_none_owned_tools unregisterAgent_none_owned_resources)

theorem unregisterAgent_removes_capabilities_witness:
  "jsmap_get ''a'' (agents shared_middleware) = Some (AgentObj demo_agent)
   \<and> filed_by_name demo_heap (reg_tools (capabilityRegistry shared_middleware))
   \<and> filed_by_name demo_heap (reg_resources (capabilityRegistry shared_middleware))
   \<and> owned_within demo_heap ''a'' (tool_list (capabilityRegistry shared_middleware))
        (getTools demo_agent)
   \<and> owned_within demo_heap ''a'' (resource_list (capabilityRegistry shared_middleware))
        (getResources demo_agent)
   \<and> unregisterAgent demo_heap shared_middleware ''a''
       = \<lparr>agents = [],
          capabilityRegistry = \<lparr>reg_tools = [], reg_resources = [(''echo'', 2)]\<rparr>,
          mw_log = [LInfo]\<rparr>
   \<and> unregistered_tools demo_heap (capabilityRegistry (unregisterAgent demo_heap
         shared_middleware ''a'')) (getTools demo_agent)
   \<and> disjoint_lists (resource_list (capabilityRegistry (unregisterAgent demo_heap
         shared_middleware ''a''))) (getResources demo_agent)
   \<and> none_owned_by demo_heap ''a'' (tool_list (capabilityRegistry (unregisterAgent demo_heap
         shared_middleware ''a'')))
   \<and> none_owned_by demo_heap ''a'' (resource_list (capabilityRegistry (unregisterAgent
         demo_heap shared_middleware ''a'')))
   \<and> \<not> jsmap_has ''zz'' (agents shared_middleware)
   \<and> unregisterAgent demo_heap shared_middleware ''zz''
       = shared_middleware\<lparr>mw_log := [LWarn]\<rparr>"
proof -
  have present: "jsmap_get ''a'' (agents shared_middleware) = Some (AgentObj demo_agent)"
    by (simp add: shared_middleware_def jsmap_get_def)
  have filed_t: "filed_by_name demo_heap (reg_tools (capabilityRegistry shared_middleware))"
    by (simp add: shared_middleware_def shared_registry_def filed_by_name_def demo_heap_def
        echo_tool_def boom_tool_def)
  have filed_r: "filed_by_name demo_heap (reg_resources (capabilityRegistry shared_middleware))"
    by (simp add: shared_middleware_def shared_registry_def filed_by_name_def demo_heap_def
        echo2_tool_def boom_tool_def)
  have own_t: "owned_within demo_heap ''a'' (tool_list (capabilityRegistry shared_middleware))
        (getTools demo_agent)"
    by (simp add: owned_within_def owned_by_def shared_middleware_def shared_registry_def
        tool_list_def jsmap_values_def getTools_def demo_agent_def)
  have own_r: "owned_within demo_heap ''a''
        (resource_list (capabilityRegistry shared_middleware)) (getResources demo_agent)"
    by (simp add: owned_within_def owned_by_def shared_middleware_def shared_registry_def
        resource_list_def jsmap_values_def getResources_def demo_agent_def demo_heap_def
        echo2_tool_def)
  have absent: "\<not> jsmap_has ''zz'' (agents shared_middleware)"
    by (simp add: shared_middleware_def jsmap_has_def)
  have run: "unregisterAgent demo_heap shared_middleware ''a''
       = \<lparr>agents = [],
          capabilityRegistry = \<lparr>reg_tools = [], reg_resources = [(''echo'', 2)]\<rparr>,
          mw_log = [LInfo]\<rparr>"
    by (simp add: unregisterAgent_def shared_middleware_def jsmap_get_def getTools_of_def
        getResources_of_def getTools_def getResources_def demo_agent_def new_BaseAgent_def
        unregisterTools_def unregisterResources_def registry_unregisterTool_def
        registry_unregisterResource_def demo_heap_def echo_tool_def boom_tool_def
        shared_registry_def jsmap_has_def jsmap_delete_def)
  have zz: "unregisterAgent demo_heap shared_middleware ''zz''
              = shared_middleware\<lparr>mw_log := [LWarn]\<rparr>"
    by (simp add: unregisterAgent_def shared_middleware_def jsmap_get_def)
  show ?thesis
    using present filed_t filed_r own_t own_r absent run zz
      unregisterAgent_removes_capabilities
        [of "''a''" shared_middleware demo_agent demo_heap "''a''"]
    by simp
qed

section \<open>Properties of the agents\<close>

lemma and_then_Inr:
  "and_then x f = Inr y \<longleftrightarrow> (\<exists>z. x = Inr z \<and> f z = Inr y)"
  by (cases x) simp_all

lemma descriptors_ignore_updates [simp]:
  "analyze_text_tool (a\<lparr>tools := ts\<rparr>) = analyze_text_tool a"
  "analyze_text_tool (a\<lparr>resources := rs\<rparr>) = analyze_text_tool a"
  "analyze_text_tool (a\<lparr>logged := l\<rparr>) = analyze_text_tool a"
  "analyze_text_tool (a\<lparr>emitted := es\<rparr>) = analyze_text_tool a"
  "analyze_image_tool (a\<lparr>tools := ts\<rparr>) = analyze_image_tool a"
  "analyze_image_tool (a\<lparr>resources := rs\<rparr>) = analyze_image_tool a"
  "analyze_image_tool (a\<lparr>logged := l\<rparr>) = analyze_image_tool a"
  "analyze_image_tool (a\<lparr>emitted := es\<rparr>) = analyze_image_tool a"
  "analyze_post_tool (a\<lparr>tools := ts\<rparr>) = analyze_post_tool a"
  "analyze_post_tool (a\<lparr>resources := rs\<rparr>) = analyze_post_tool a"
  "analyze_post_tool (a\<lparr>logged := l\<rparr>) = analyze_post_tool a"
  "analyze_post_tool (a\<lparr>emitted := es\<rparr>) = analyze_post_tool a"
  "analysis_results_resource (a\<lparr>tools := ts\<rparr>) = analysis_results_resource a"
  "analysis_results_resource (a\<lparr>resources := rs\<rparr>) = analysis_results_resource a"
  "analysis_results_resource (a\<lparr>logged := l\<rparr>) = analysis_results_resource a"
  "analysis_results_resource (a\<lparr>emitted := es\<rparr>) = analysis_results_resource a"
  by (simp_all add: analyze_text_tool_def analyze_image_tool_def analyze_post_tool_def
      analysis_results_resource_def)

lemma valid_descriptors [simp]:
  "valid_descriptor (analyze_text_tool a)"
  "valid_descriptor (analyze_image_tool a)"
  "valid_descriptor (analyze_post_tool a)"
  "valid_descriptor (analysis_results_resource a)"
  "valid_descriptor search_tweets_tool"
  by (simp_all add: valid_descriptor_def falsy_def analyze_text_tool_def analyze_image_tool_def
      analyze_post_tool_def analysis_results_resource_def search_tweets_tool_def)

lemma agent_registerTool_valid:
  "valid_descriptor (h ! tool) \<Longrightarrow>
   agent_registerTool h a tool =
     Inr (h @ [(h ! tool)\<lparr>agentId := Some (agent_id a)\<rparr>],
          a\<lparr>tools := tools a @ [length h], logged := logged a @ [LDebug],
            emitted := emitted a @ [(''tool-registered'', Some (length h))]\<rparr>,
          length h)"
  by (simp add: agent_registerTool_def valid_descriptor_def alloc_def)

lemma agent_registerTool_invalid:
  "\<not> valid_descriptor (h ! tool) \<Longrightarrow>
   agent_registerTool h a tool =
     Inl (JError ''Error'' ''Un outil doit avoir un nom, une description et un gestionnaire'')"
  by (auto simp add: agent_registerTool_def valid_descriptor_def)

lemma agent_registerResource_valid:
  "valid_descriptor (h ! resource) \<Longrightarrow>
   agent_registerResource h a resource =
     Inr (h @ [(h ! resource)\<lparr>agentId := Some (agent_id a)\<rparr>],
          a\<lparr>resources := resources a @ [length h], logged := logged a @ [LDebug],
            emitted := emitted a @ [(''resource-registered'', Some (length h))]\<rparr>,
          length h)"
  by (simp add: agent_registerResource_def valid_descriptor_def alloc_def)

lemma agent_registerResource_invalid:
  "\<not> valid_descriptor (h ! resource) \<Longrightarrow>
   agent_registerResource h a resource =
     Inl (JError ''Error''
            ''Une ressource doit avoir un nom, une description et un gestionnaire'')"
  by (auto simp add: agent_registerResource_def valid_descriptor_def)

lemma registerTool_literal_valid:
  "valid_descriptor d \<Longrightarrow>
   registerTool_literal d (h, a) =
     Inr (h @ [d, d\<lparr>agentId := Some (agent_id a)\<rparr>],
          a\<lparr>tools := tools a @ [Suc (length h)], logged := logged a @ [LDebug],
            emitted := emitted a @ [(''tool-registered'', Some (Suc (length h)))]\<rparr>)"
  by (simp add: registerTool_literal_def alloc_def agent_registerTool_valid)

lemma registerResource_literal_valid:
  "valid_descriptor d \<Longrightarrow>
   registerResource_literal d (h, a) =
     Inr (h @ [d, d\<lparr>agentId := Some (agent_id a)\<rparr>],
          a\<lparr>resources := resources a @ [Suc (length h)], logged := logged a @ [LDebug],
            emitted := emitted a @ [(''resource-registered'', Some (Suc (length h)))]\<rparr>)"
  by (simp add: registerResource_literal_def alloc_def agent_registerResource_valid)

lemma ContentAnalysisAgent_initialize_result:
  "ContentAnalysisAgent_initialize (h, a) =
     Inr (h @ ContentAnalysisAgent_descriptors a,
          a\<lparr>tools := tools a @ [length h + 1, length h + 3, length h + 5],
            resources := resources a @ [length h + 7],
            logged := logged a @ [LInfo, LDebug, LDebug, LDebug, LDebug, LInfo],
            emitted := emitted a @
              [(''tool-registered'', Some (length h + 1)),
               (''tool-registered'', Some (length h + 3)),
               (''tool-registered'', Some (length h + 5)),
               (''resource-registered'', Some (length h + 7))]\<rparr>)"
  by (simp add: ContentAnalysisAgent_initialize_def BaseAgent_initialize_def
      registerTool_literal_valid registerResource_literal_valid
      ContentAnalysisAgent_descriptors_def)

lemma TwitterAgent_initialize_result:
  "TwitterAgent_initialize (h, a) =
     Inr (h @ [search_tweets_tool, search_tweets_tool\<lparr>agentId := Some (agent_id a)\<rparr>],
          a\<lparr>tools := tools a @ [length h + 1],
            logged := logged a @ [LInfo, LDebug],
            emitted := emitted a @ [(''tool-registered'', Some (length h + 1))]\<rparr>)"
  by (simp add: TwitterAgent_initialize_def BaseAgent_initialize_def
      registerTool_literal_valid)

lemma initialize_by_class:
  "agent_class a = BaseAgent \<Longrightarrow> initialize (h, a) = Inr (h, a\<lparr>logged := logged a @ [LInfo]\<rparr>)"
  "agent_class a = ContentAnalysisAgent \<Longrightarrow>
     initialize (h, a) = ContentAnalysisAgent_initialize (h, a)"
  "agent_class a = TwitterAgent \<Longrightarrow> initialize (h, a) = TwitterAgent_initialize (h, a)"
  by (simp_all add: initialize_def BaseAgent_initialize_def)

lemma initialize_frame:
  "\<exists>h' a'. initialize (h, a) = Inr (h', a') \<and> agent_class a' = agent_class a
     \<and> agent_id a' = agent_id a \<and> running a' = running a
     \<and> queueInterval a' = queueInterval a \<and> timers a' = timers a
     \<and> next_timer a' = next_timer a
     \<and> times_emitted ''started'' a' = times_emitted ''started'' a
     \<and> times_emitted ''stopped'' a' = times_emitted ''stopped'' a"
  by (cases "agent_class a")
    (simp_all add: initialize_by_class ContentAnalysisAgent_initialize_result
      TwitterAgent_initialize_result times_emitted_def)

lemma BaseAgent_start_running:
  "running a \<Longrightarrow> BaseAgent_start (h, a) = Inr (h, a\<lparr>logged := logged a @ [LWarn]\<rparr>)"
  by (simp add: BaseAgent_start_def)

lemma BaseAgent_start_frame:
  assumes "\<not> running a"
  shows "\<exists>h1 a1. BaseAgent_start (h, a) = Inr (h1, a1) \<and> running a1
     \<and> agent_class a1 = agent_class a \<and> agent_id a1 = agent_id a
     \<and> queueInterval a1 = queueInterval a \<and> timers a1 = timers a
     \<and> next_timer a1 = next_timer a
     \<and> times_emitted ''started'' a1 = Suc (times_emitted ''started'' a)
     \<and> times_emitted ''stopped'' a1 = times_emitted ''stopped'' a"
proof -
  from initialize_frame [of h a] obtain h' a' where
    init: "initialize (h, a) = Inr (h', a')" and
    frame: "agent_class a' = agent_class a" "agent_id a' = agent_id a"
      "queueInterval a' = queueInterval a" "timers a' = timers a"
      "next_timer a' = next_timer a"
      "times_emitted ''started'' a' = times_emitted ''started'' a"
      "times_emitted ''stopped'' a' = times_emitted ''stopped'' a"
    by blast
  have "BaseAgent_start (h, a) =
          Inr (h', a'\<lparr>running := True, logged := logged a' @ [LInfo],
                     emitted := emitted a' @ [(''started'', None)]\<rparr>)"
    using assms init by (simp add: BaseAgent_start_def)
  then show ?thesis
    using frame by (simp add: times_emitted_def)
qed

lemma start_frame:
  assumes "\<not> running a"
  shows "\<exists>h1 a1. start (h, a) = Inr (h1, a1) \<and> running a1
     \<and> agent_class a1 = agent_class a
     \<and> times_emitted ''started'' a1 = Suc (times_emitted ''started'' a)
     \<and> times_emitted ''stopped'' a1 = times_emitted ''stopped'' a"
proof -
  from BaseAgent_start_frame [OF assms, of h] obtain h1 a1 where
    base: "BaseAgent_start (h, a) = Inr (h1, a1)" and
    frame: "running a1" "agent_class a1 = agent_class a"
      "times_emitted ''started'' a1 = Suc (times_emitted ''started'' a)"
      "times_emitted ''stopped'' a1 = times_emitted ''stopped'' a"
    by blast
  show ?thesis
  proof (cases "agent_class a = ContentAnalysisAgent")
    case True
    then have "start (h, a) =
        Inr (h1, (startQueueProcessor a1)\<lparr>logged := logged (startQueueProcessor a1) @ [LInfo]\<rparr>)"
      using base by (simp add: start_def ContentAnalysisAgent_start_def)
    then show ?thesis
      using frame by (simp add: startQueueProcessor_def times_emitted_def)
  next
    case False
    then have "start (h, a) = BaseAgent_start (h, a)"
      by (cases "agent_class a") (simp_all add: start_def)
    then show ?thesis using base frame by simp
  qed
qed

lemma start_running:
  assumes "running a"
  shows "\<exists>a2. start (h, a) = Inr (h, a2) \<and> running a2 \<and> tools a2 = tools a
     \<and> resources a2 = resources a \<and> emitted a2 = emitted a
     \<and> agent_class a2 = agent_class a"
proof (cases "agent_class a = ContentAnalysisAgent")
  case True
  then show ?thesis
    using assms
    by (simp add: start_def ContentAnalysisAgent_start_def BaseAgent_start_running
        startQueueProcessor_def)
next
  case False
  then have "start (h, a) = BaseAgent_start (h, a)"
    by (cases "agent_class a") (simp_all add: start_def)
  then show ?thesis using assms by (simp add: BaseAgent_start_running)
qed

lemma stop_not_running:
  assumes "\<not> running a" and "queueInterval a = None"
  shows "stop a = a\<lparr>logged := logged a @
           (if agent_class a = ContentAnalysisAgent then [LWarn, LInfo] else [LWarn])\<rparr>"
  using assms
  by (cases "agent_class a")
    (simp_all add: stop_def ContentAnalysisAgent_stop_def BaseAgent_stop_def
      stopQueueProcessor_def)

text \<open>
  \<open>ContentAnalysisAgent.start\<close> on a running agent: \<open>super.start()\<close> only warns, and the
  queue processor is started once more, the timer set before staying set.
\<close>

lemma ContentAnalysisAgent_second_start:
  "agent_class a = ContentAnalysisAgent \<Longrightarrow> running a \<Longrightarrow>
   start (h, a) =
     Inr (h, a\<lparr>queueInterval := Some (next_timer a),
               timers := timers a @ [next_timer a],
               next_timer := Suc (next_timer a),
               logged := logged a @ [LWarn, LInfo]\<rparr>)"
  by (simp add: start_def ContentAnalysisAgent_start_def BaseAgent_start_running
      startQueueProcessor_def)

lemma new_agents_idle:
  "\<not> running (new_BaseAgent cls ident ms) \<and> queueInterval (new_BaseAgent cls ident ms) = None"
  "\<not> running (new_ContentAnalysisAgent ms) \<and> queueInterval (new_ContentAnalysisAgent ms) = None"
  "\<not> running (new_TwitterAgent ms) \<and> queueInterval (new_TwitterAgent ms) = None"
  by (simp_all add: new_BaseAgent_def new_ContentAnalysisAgent_def new_TwitterAgent_def)

text \<open>
  The guards of \<open>BaseAgent\<close>, for an agent of any class: \<open>stop()\<close> on an agent that is
  not running and has no queue timer, as every agent that was never started is, changes
  nothing but the log (a warning) and emits no \<open>stopped\<close> event; and two calls of
  \<open>start()\<close> in a row on an agent that is not running both succeed and emit exactly one
  \<open>started\<close> event: the second call emits nothing and registers nothing,
  \<open>BaseAgent.start\<close> only logging a warning.
\<close>

theorem lifecycle_guards:
  "(\<not> running a \<and> queueInterval a = None \<longrightarrow>
      stop a = a\<lparr>logged := logged a @
                 (if agent_class a = ContentAnalysisAgent then [LWarn, LInfo] else [LWarn])\<rparr>
      \<and> running (stop a) = running a
      \<and> times_emitted ''stopped'' (stop a) = times_emitted ''stopped'' a)
   \<and> (\<not> running a \<longrightarrow>
        (\<exists>h1 a1 a2. start (h, a) = Inr (h1, a1) \<and> start (h1, a1) = Inr (h1, a2)
           \<and> times_emitted ''started'' a2 = times_emitted ''started'' a + 1
           \<and> emitted a2 = emitted a1 \<and> tools a2 = tools a1 \<and> resources a2 = resources a1
           \<and> BaseAgent_start (h1, a1) = Inr (h1, a1\<lparr>logged := logged a1 @ [LWarn]\<rparr>)))"
proof (intro conjI impI)
  assume idle: "\<not> running a \<and> queueInterval a = None"
  then have eq: "stop a = a\<lparr>logged := logged a @
                 (if agent_class a = ContentAnalysisAgent then [LWarn, LInfo] else [LWarn])\<rparr>"
    by (simp add: stop_not_running)
  show "stop a = a\<lparr>logged := logged a @
                 (if agent_class a = ContentAnalysisAgent then [LWarn, LInfo] else [LWarn])\<rparr>"
    by (rule eq)
  show "running (stop a) = running a"
    by (simp add: eq)
  show "times_emitted ''stopped'' (stop a) = times_emitted ''stopped'' a"
    by (simp add: eq times_emitted_def)
next
  assume idle: "\<not> running a"
  from start_frame [OF idle, of h] obtain h1 a1 where
    first: "start (h, a) = Inr (h1, a1)" and run1: "running a1" and
    ev1: "times_emitted ''started'' a1 = Suc (times_emitted ''started'' a)"
    by blast
  from start_running [OF run1, of h1] obtain a2 where
    second: "start (h1, a1) = Inr (h1, a2)" and
    same: "tools a2 = tools a1" "resources a2 = resources a1" "emitted a2 = emitted a1"
    by blast
  have "times_emitted ''started'' a2 = times_emitted ''started'' a + 1"
    using ev1 same by (simp add: times_emitted_def)
  with first second same run1
  show "\<exists>h1 a1 a2. start (h, a) = Inr (h1, a1) \<and> start (h1, a1) = Inr (h1, a2)
           \<and> times_emitted ''started'' a2 = times_emitted ''started'' a + 1
           \<and> emitted a2 = emitted a1 \<and> tools a2 = tools a1 \<and> resources a2 = resources a1
           \<and> BaseAgent_start (h1, a1) = Inr (h1, a1\<lparr>logged := logged a1 @ [LWarn]\<rparr>)"
    by (auto simp: BaseAgent_start_running)
qed

theorem lifecycle_guards_witness:
  "\<not> running (new_ContentAnalysisAgent stub_methods)
   \<and> queueInterval (new_ContentAnalysisAgent stub_methods) = None
   \<and> stop (new_ContentAnalysisAgent stub_methods)
       = (new_ContentAnalysisAgent stub_methods)\<lparr>logged := [LInfo, LInfo, LWarn, LInfo]\<rparr>
   \<and> times_emitted ''stopped'' (stop (new_ContentAnalysisAgent stub_methods)) = 0
   \<and> (\<exists>h1 a1 a2. start ([], new_ContentAnalysisAgent stub_methods) = Inr (h1, a1)
         \<and> start (h1, a1) = Inr (h1, a2)
         \<and> times_emitted ''started'' a2 = 1
         \<and> emitted a2 = emitted a1 \<and> tools a2 = tools a1 \<and> resources a2 = resources a1)"
proof -
  have idle: "\<not> running (new_ContentAnalysisAgent stub_methods)"
    by (simp add: new_ContentAnalysisAgent_def new_BaseAgent_def)
  have timer: "queueInterval (new_ContentAnalysisAgent stub_methods) = None"
    by (simp add: new_ContentAnalysisAgent_def new_BaseAgent_def)
  have cls: "agent_class (new_ContentAnalysisAgent stub_methods) = ContentAnalysisAgent"
    by (simp add: new_ContentAnalysisAgent_def new_BaseAgent_def)
  have lg: "logged (new_ContentAnalysisAgent stub_methods) = [LInfo, LInfo]"
    by (simp add: new_ContentAnalysisAgent_def new_BaseAgent_def)
  have ev0: "times_emitted ''started'' (new_ContentAnalysisAgent stub_methods) = 0"
    "times_emitted ''stopped'' (new_ContentAnalysisAgent stub_methods) = 0"
    by (simp_all add: times_emitted_def new_ContentAnalysisAgent_def new_BaseAgent_def)
  show ?thesis
    using idle timer cls lg ev0
      lifecycle_guards [of "new_ContentAnalysisAgent stub_methods" "[]"]
    by (auto simp: times_emitted_def)
qed

lemma ContentAnalysisAgent_start_result:
  "agent_class a = ContentAnalysisAgent \<Longrightarrow> \<not> running a \<Longrightarrow>
   start (h, a) =
     Inr (h @ ContentAnalysisAgent_descriptors a,
          a\<lparr>tools := tools a @ [length h + 1, length h + 3, length h + 5],
            resources := resources a @ [length h + 7],
            running := True,
            queueInterval := Some (next_timer a),
            timers := timers a @ [next_timer a],
            next_timer := Suc (next_timer a),
            logged := logged a @ [LInfo, LDebug, LDebug, LDebug, LDebug, LInfo, LInfo, LInfo],
            emitted := emitted a @
              [(''tool-registered'', Some (length h + 1)),
               (''tool-registered'', Some (length h + 3)),
               (''tool-registered'', Some (length h + 5)),
               (''resource-registered'', Some (length h + 7)),
               (''started'', None)]\<rparr>)"
  by (simp add: start_def ContentAnalysisAgent_start_def BaseAgent_start_def
      initialize_by_class ContentAnalysisAgent_initialize_result startQueueProcessor_def)

lemma ContentAnalysisAgent_stop_result:
  "agent_class a = ContentAnalysisAgent \<Longrightarrow> running a \<Longrightarrow> queueInterval a = Some t \<Longrightarrow>
   stop a = a\<lparr>running := False, queueInterval := None, timers := removeAll t (timers a),
              logged := logged a @ [LInfo, LInfo],
              emitted := emitted a @ [(''stopped'', None)]\<rparr>"
  by (simp add: stop_def ContentAnalysisAgent_stop_def BaseAgent_stop_def
      stopQueueProcessor_def)

text \<open>
  Claim C7 says that \<open>stop()\<close> on an agent that was never started is a no-op without a
  \<open>stopped\<close> event, and that of two calls of \<open>start()\<close> in a row the second is a warning
  no-op, one \<open>started\<close> event being emitted. The events are as the claim says, for every
  class (\<open>lifecycle_guards\<close>), but the second call is no no-op for a content analysis
  agent: \<open>ContentAnalysisAgent.start\<close> starts the queue processor whether or not
  \<open>super.start()\<close> found the agent running. After the first start the timer 0 is set; the
  second start sets the timer 1 and keeps it in \<open>queueInterval\<close>, leaving the timer 0 set;
  \<open>stop()\<close> then clears the timer 1 only, and the agent is stopped with the timer 0
  still set.
\<close>

theorem second_start_sets_second_timer:
  "second_start_timers ms
     = Inr ((Some 0, [0]), (Some 1, [0, 1]), (False, None, [0]))"
  by (simp add: second_start_timers_def ContentAnalysisAgent_start_result
      ContentAnalysisAgent_second_start ContentAnalysisAgent_stop_result
      new_ContentAnalysisAgent_def new_BaseAgent_def)

text \<open>
  Claim C4 says that \<open>start(); stop(); start()\<close> leaves the agent's tool and resource lists
  as they were after the first start. The code does otherwise: \<open>BaseAgent.start\<close> calls
  \<open>initialize\<close> on every start of an agent that is not running, and every \<open>initialize\<close>
  of a content analysis agent registers its three tools and its resource again. After the
  first start the lists are the references 1, 3, 5 and 7; after the restart they hold six
  tools and two resources. The same happens for \<open>initialize()\<close> followed by \<open>start()\<close>.
\<close>

theorem restart_duplicates_capabilities:
  "restart_lists ms = Inr (([1, 3, 5], [7]), ([1, 3, 5, 9, 11, 13], [7, 15]))
   \<and> initialize_then_start_lists ms = Inr (([1, 3, 5], [7]), ([1, 3, 5, 9, 11, 13], [7, 15]))"
  by (simp add: restart_lists_def initialize_then_start_lists_def initialize_by_class
      ContentAnalysisAgent_initialize_result
      ContentAnalysisAgent_start_result ContentAnalysisAgent_stop_result
      new_ContentAnalysisAgent_def new_BaseAgent_def getTools_def getResources_def
      ContentAnalysisAgent_descriptors_def)

lemma owned_cong:
  "tools a' = tools a \<Longrightarrow> resources a' = resources a \<Longrightarrow> agent_id a' = agent_id a
   \<Longrightarrow> owned h a' = owned h a"
  by (simp add: owned_def)

lemma owned_grows:
  assumes "owned h a" and "r \<in> set (tools a @ resources a)"
  shows "r < length (h @ ds) \<and> agentId ((h @ ds) ! r) = Some (agent_id a)"
proof -
  from assms have "r < length h \<and> agentId (h ! r) = Some (agent_id a)"
    by (simp add: owned_def list_all_iff)
  then show ?thesis by (simp add: nth_append)
qed

lemma owned_new_entry:
  "length h + length ds < length (h @ ds @ [d\<lparr>agentId := Some i\<rparr>])
   \<and> agentId ((h @ ds @ [d\<lparr>agentId := Some i\<rparr>]) ! (length h + length ds)) = Some i"
  by (simp add: nth_append)

lemma owned_new_tool:
  assumes "owned h a"
  shows "owned (h @ ds @ [d\<lparr>agentId := Some (agent_id a)\<rparr>])
           (a\<lparr>tools := tools a @ [length h + length ds], logged := l, emitted := es\<rparr>)"
  unfolding owned_def list_all_iff
proof
  fix r
  assume "r \<in> set (tools (a\<lparr>tools := tools a @ [length h + length ds], logged := l,
                             emitted := es\<rparr>)
                  @ resources (a\<lparr>tools := tools a @ [length h + length ds], logged := l,
                                 emitted := es\<rparr>))"
  then consider "r \<in> set (tools a @ resources a)" | "r = length h + length ds"
    by auto
  then show "r < length (h @ ds @ [d\<lparr>agentId := Some (agent_id a)\<rparr>])
      \<and> agentId ((h @ ds @ [d\<lparr>agentId := Some (agent_id a)\<rparr>]) ! r)
          = Some (agent_id (a\<lparr>tools := tools a @ [length h + length ds], logged := l,
                               emitted := es\<rparr>))"
  proof cases
    case 1
    from owned_grows [OF assms 1, of "ds @ [d\<lparr>agentId := Some (agent_id a)\<rparr>]"]
    show ?thesis by simp
  next
    case 2
    with owned_new_entry [where h = h and ds = ds and d = d and i = "agent_id a"]
    show ?thesis by simp
  qed
qed

lemma owned_new_resource:
  assumes "owned h a"
  shows "owned (h @ ds @ [d\<lparr>agentId := Some (agent_id a)\<rparr>])
           (a\<lparr>resources := resources a @ [length h + length ds], logged := l,
              emitted := es\<rparr>)"
  unfolding owned_def list_all_iff
proof
  fix r
  assume "r \<in> set (tools (a\<lparr>resources := resources a @ [length h + length ds], logged := l,
                             emitted := es\<rparr>)
                  @ resources (a\<lparr>resources := resources a @ [length h + length ds],
                                 logged := l, emitted := es\<rparr>))"
  then consider "r \<in> set (tools a @ resources a)" | "r = length h + length ds"
    by auto
  then show "r < length (h @ ds @ [d\<lparr>agentId := Some (agent_id a)\<rparr>])
      \<and> agentId ((h @ ds @ [d\<lparr>agentId := Some (agent_id a)\<rparr>]) ! r)
          = Some (agent_id (a\<lparr>resources := resources a @ [length h + length ds],
                               logged := l, emitted := es\<rparr>))"
  proof cases
    case 1
    from owned_grows [OF assms 1, of "ds @ [d\<lparr>agentId := Some (agent_id a)\<rparr>]"]
    show ?thesis by simp
  next
    case 2
    with owned_new_entry [where h = h and ds = ds and d = d and i = "agent_id a"]
    show ?thesis by simp
  qed
qed

lemma registerTool_literal_invalid:
  "\<not> valid_descriptor d \<Longrightarrow>
   registerTool_literal d (h, a) =
     Inl (JError ''Error'' ''Un outil doit avoir un nom, une description et un gestionnaire'')"
  by (simp add: registerTool_literal_def alloc_def agent_registerTool_invalid)

lemma registerResource_literal_invalid:
  "\<not> valid_descriptor d \<Longrightarrow>
   registerResource_literal d (h, a) =
     Inl (JError ''Error''
            ''Une ressource doit avoir un nom, une description et un gestionnaire'')"
  by (simp add: registerResource_literal_def alloc_def agent_registerResource_invalid)

lemma registerTool_literal_owned:
  assumes "owned h a" and "registerTool_literal d (h, a) = Inr (h', a')"
  shows "owned h' a' \<and> agent_id a' = agent_id a \<and> agent_class a' = agent_class a
         \<and> running a' = running a"
proof (cases "valid_descriptor d")
  case True
  with assms(2) have
    "h' = h @ [d] @ [d\<lparr>agentId := Some (agent_id a)\<rparr>]"
    "a' = a\<lparr>tools := tools a @ [length h + length [d]], logged := logged a @ [LDebug],
            emitted := emitted a @ [(''tool-registered'', Some (Suc (length h)))]\<rparr>"
    by (simp_all add: registerTool_literal_valid)
  then show ?thesis
    using owned_new_tool [OF assms(1), of "[d]" d] by simp
next
  case False
  with assms(2) show ?thesis by (simp add: registerTool_literal_invalid)
qed

lemma registerResource_literal_owned:
  assumes "owned h a" and "registerResource_literal d (h, a) = Inr (h', a')"
  shows "owned h' a' \<and> agent_id a' = agent_id a \<and> agent_class a' = agent_class a
         \<and> running a' = running a"
proof (cases "valid_descriptor d")
  case True
  with assms(2) have
    "h' = h @ [d] @ [d\<lparr>agentId := Some (agent_id a)\<rparr>]"
    "a' = a\<lparr>resources := resources a @ [length h + length [d]],
            logged := logged a @ [LDebug],
            emitted := emitted a @ [(''resource-registered'', Some (Suc (length h)))]\<rparr>"
    by (simp_all add: registerResource_literal_valid)
  then show ?thesis
    using owned_new_resource [OF assms(1), of "[d]" d] by simp
next
  case False
  with assms(2) show ?thesis by (simp add: registerResource_literal_invalid)
qed

lemma BaseAgent_initialize_owned:
  assumes "owned h a" and "BaseAgent_initialize (h, a) = Inr (h', a')"
  shows "owned h' a' \<and> agent_id a' = agent_id a \<and> agent_class a' = agent_class a
         \<and> running a' = running a"
  using assms by (auto simp: BaseAgent_initialize_def owned_def)

lemma initialize_owned:
  assumes "owned h a" and "initialize (h, a) = Inr (h', a')"
  shows "owned h' a'"
proof (cases "agent_class a")
  case BaseAgent
  with assms show ?thesis
    by (auto simp: initialize_by_class owned_def)
next
  case TwitterAgent
  with assms(2) obtain h1 a1 where
    s1: "BaseAgent_initialize (h, a) = Inr (h1, a1)" and
    s2: "registerTool_literal search_tweets_tool (h1, a1) = Inr (h', a')"
    by (auto simp: initialize_by_class TwitterAgent_initialize_def and_then_Inr)
  from BaseAgent_initialize_owned [OF assms(1) s1] have "owned h1 a1" by simp
  from registerTool_literal_owned [OF this s2] show ?thesis by simp
next
  case ContentAnalysisAgent
  with assms(2) obtain h1 a1 h2 a2 h3 a3 h4 a4 h5 a5 where
    s1: "BaseAgent_initialize (h, a) = Inr (h1, a1)" and
    s2: "registerTool_literal (analyze_text_tool a1) (h1, a1) = Inr (h2, a2)" and
    s3: "registerTool_literal (analyze_image_tool a2) (h2, a2) = Inr (h3, a3)" and
    s4: "registerTool_literal (analyze_post_tool a3) (h3, a3) = Inr (h4, a4)" and
    s5: "registerResource_literal (analysis_results_resource a4) (h4, a4) = Inr (h5, a5)" and
    fin: "h' = h5" "a' = a5\<lparr>logged := logged a5 @ [LInfo]\<rparr>"
    by (auto simp: initialize_by_class ContentAnalysisAgent_initialize_def and_then_Inr)
  from BaseAgent_initialize_owned [OF assms(1) s1] have "owned h1 a1" by simp
  from registerTool_literal_owned [OF this s2] have "owned h2 a2" by simp
  from registerTool_literal_owned [OF this s3] have "owned h3 a3" by simp
  from registerTool_literal_owned [OF this s4] have "owned h4 a4" by simp
  from registerResource_literal_owned [OF this s5] have "owned h5 a5" by simp
  with fin show ?thesis by (simp add: owned_def)
qed

lemma BaseAgent_start_owned:
  assumes "owned h a" and "BaseAgent_start (h, a) = Inr (h', a')"
  shows "owned h' a'"
proof (cases "running a")
  case True
  with assms show ?thesis by (auto simp: BaseAgent_start_running owned_def)
next
  case False
  with assms(2) obtain a1 where
    init: "initialize (h, a) = Inr (h', a1)" and
    a': "a' = a1\<lparr>running := True, logged := logged a1 @ [LInfo],
                 emitted := emitted a1 @ [(''started'', None)]\<rparr>"
    by (auto simp: BaseAgent_start_def split: sum.splits)
  from initialize_owned [OF assms(1) init] a' show ?thesis
    by (simp add: owned_def)
qed

lemma start_owned:
  assumes "owned h a" and "start (h, a) = Inr (h', a')"
  shows "owned h' a'"
proof (cases "agent_class a = ContentAnalysisAgent")
  case True
  with assms(2) obtain a1 where
    base: "BaseAgent_start (h, a) = Inr (h', a1)" and
    a': "a' = (startQueueProcessor a1)\<lparr>logged := logged (startQueueProcessor a1) @ [LInfo]\<rparr>"
    by (auto simp: start_def ContentAnalysisAgent_start_def and_then_Inr)
  from BaseAgent_start_owned [OF assms(1) base] a' show ?thesis
    by (simp add: owned_def startQueueProcessor_def)
next
  case False
  then have "start (h, a) = BaseAgent_start (h, a)"
    by (cases "agent_class a") (simp_all add: start_def)
  with assms show ?thesis by (simp add: BaseAgent_start_owned)
qed

lemma stop_owned: "owned h (stop a) = owned h a"
  by (cases "agent_class a"; cases "queueInterval a")
    (simp_all add: stop_def ContentAnalysisAgent_stop_def BaseAgent_stop_def
      stopQueueProcessor_def owned_def)

lemma call_owned:
  assumes "owned (fst s) (snd s)"
  shows "owned (fst (call c s)) (snd (call c s))"
proof (cases c)
  case (Call_registerTool d)
  show ?thesis
  proof (cases "registerTool_literal d s")
    case (Inl e)
    with Call_registerTool assms show ?thesis by (simp add: or_unchanged_def)
  next
    case (Inr s')
    with registerTool_literal_owned [of "fst s" "snd s" d "fst s'" "snd s'"] assms
    have "owned (fst s') (snd s')" by simp
    with Call_registerTool Inr show ?thesis by (simp add: or_unchanged_def)
  qed
next
  case (Call_registerResource d)
  show ?thesis
  proof (cases "registerResource_literal d s")
    case (Inl e)
    with Call_registerResource assms show ?thesis by (simp add: or_unchanged_def)
  next
    case (Inr s')
    with registerResource_literal_owned [of "fst s" "snd s" d "fst s'" "snd s'"] assms
    have "owned (fst s') (snd s')" by simp
    with Call_registerResource Inr show ?thesis by (simp add: or_unchanged_def)
  qed
next
  case Call_initialize
  show ?thesis
  proof (cases "initialize s")
    case (Inl e)
    with Call_initialize assms show ?thesis by (simp add: or_unchanged_def)
  next
    case (Inr s')
    with initialize_owned [of "fst s" "snd s" "fst s'" "snd s'"] assms
    have "owned (fst s') (snd s')" by simp
    with Call_initialize Inr show ?thesis by (simp add: or_unchanged_def)
  qed
next
  case Call_start
  show ?thesis
  proof (cases "start s")
    case (Inl e)
    with Call_start assms show ?thesis by (simp add: or_unchanged_def)
  next
    case (Inr s')
    with start_owned [of "fst s" "snd s" "fst s'" "snd s'"] assms
    have "owned (fst s') (snd s')" by simp
    with Call_start Inr show ?thesis by (simp add: or_unchanged_def)
  qed
next
  case Call_stop
  with assms show ?thesis by (simp add: stop_owned)
qed

lemma run_calls_owned:
  "owned (fst s) (snd s) \<Longrightarrow> owned (fst (run_calls cs s)) (snd (run_calls cs s))"
  unfolding run_calls_def
  by (induction cs arbitrary: s) (simp_all add: call_owned)

lemma owned_new_BaseAgent: "owned h (new_BaseAgent cls ident ms)"
  by (simp add: owned_def new_BaseAgent_def)

lemma owned_new_agents:
  "owned h (new_ContentAnalysisAgent ms)" "owned h (new_TwitterAgent ms)"
  by (simp_all add: owned_def new_ContentAnalysisAgent_def new_TwitterAgent_def
      new_BaseAgent_def)

text \<open>
  Claim C10: for a valid descriptor, \<open>BaseAgent.registerTool\<close> and
  \<open>BaseAgent.registerResource\<close> append to the agent's list, and return, a new object that is
  the given descriptor with \<open>agentId\<close> set to the agent's id; the given descriptor and every
  other object of the heap stay as they are. Hence every entry of an agent's lists carries
  the agent's id as \<open>agentId\<close>: this holds for a new agent and is kept by every call of
  \<open>registerTool\<close>, \<open>registerResource\<close>, \<open>initialize\<close>, \<open>start\<close> and \<open>stop\<close>.
\<close>

theorem registration_tags_copy:
  "(tool < length h \<and> valid_descriptor (h ! tool) \<longrightarrow>
      (\<exists>h' a' r. agent_registerTool h a tool = Inr (h', a', r)
         \<and> tools a' = tools a @ [r] \<and> resources a' = resources a
         \<and> agent_id a' = agent_id a
         \<and> h' ! r = (h ! tool)\<lparr>agentId := Some (agent_id a)\<rparr>
         \<and> r \<noteq> tool \<and> h' ! tool = h ! tool \<and> take (length h) h' = h
         \<and> (owned h a \<longrightarrow> owned h' a')))
   \<and> (resource < length h \<and> valid_descriptor (h ! resource) \<longrightarrow>
      (\<exists>h' a' r. agent_registerResource h a resource = Inr (h', a', r)
         \<and> resources a' = resources a @ [r] \<and> tools a' = tools a
         \<and> agent_id a' = agent_id a
         \<and> h' ! r = (h ! resource)\<lparr>agentId := Some (agent_id a)\<rparr>
         \<and> r \<noteq> resource \<and> h' ! resource = h ! resource \<and> take (length h) h' = h
         \<and> (owned h a \<longrightarrow> owned h' a')))
   \<and> (owned h a \<longrightarrow>
        owned (fst (run_calls cs (h, a))) (snd (run_calls cs (h, a))))
   \<and> owned h (new_BaseAgent cls ident ms)
   \<and> owned h (new_ContentAnalysisAgent ms)
   \<and> owned h (new_TwitterAgent ms)"
proof (intro conjI impI)
  assume ok: "tool < length h \<and> valid_descriptor (h ! tool)"
  have own: "owned h a \<longrightarrow>
      owned (h @ [(h ! tool)\<lparr>agentId := Some (agent_id a)\<rparr>])
        (a\<lparr>tools := tools a @ [length h], logged := logged a @ [LDebug],
           emitted := emitted a @ [(''tool-registered'', Some (length h))]\<rparr>)"
    using owned_new_tool [of h a "[]" "h ! tool"] by simp
  show "\<exists>h' a' r. agent_registerTool h a tool = Inr (h', a', r)
         \<and> tools a' = tools a @ [r] \<and> resources a' = resources a
         \<and> agent_id a' = agent_id a
         \<and> h' ! r = (h ! tool)\<lparr>agentId := Some (agent_id a)\<rparr>
         \<and> r \<noteq> tool \<and> h' ! tool = h ! tool \<and> take (length h) h' = h
         \<and> (owned h a \<longrightarrow> owned h' a')"
    using ok own by (simp add: agent_registerTool_valid nth_append)
next
  assume ok: "resource < length h \<and> valid_descriptor (h ! resource)"
  have own: "owned h a \<longrightarrow>
      owned (h @ [(h ! resource)\<lparr>agentId := Some (agent_id a)\<rparr>])
        (a\<lparr>resources := resources a @ [length h], logged := logged a @ [LDebug],
           emitted := emitted a @ [(''resource-registered'', Some (length h))]\<rparr>)"
    using owned_new_resource [of h a "[]" "h ! resource"] by simp
  show "\<exists>h' a' r. agent_registerResource h a resource = Inr (h', a', r)
         \<and> resources a' = resources a @ [r] \<and> tools a' = tools a
         \<and> agent_id a' = agent_id a
         \<and> h' ! r = (h ! resource)\<lparr>agentId := Some (agent_id a)\<rparr>
         \<and> r \<noteq> resource \<and> h' ! resource = h ! resource \<and> take (length h) h' = h
         \<and> (owned h a \<longrightarrow> owned h' a')"
    using ok own by (simp add: agent_registerResource_valid nth_append)
next
  assume "owned h a"
  then show "owned (fst (run_calls cs (h, a))) (snd (run_calls cs (h, a)))"
    using run_calls_owned [of "(h, a)" cs] by simp
qed (simp_all add: owned_new_BaseAgent owned_new_agents)

theorem registration_tags_copy_witness:
  "(0::nat) < length [search_tweets_tool]
   \<and> valid_descriptor ([search_tweets_tool] ! 0)
   \<and> owned [search_tweets_tool] tweet_agent
   \<and> agent_registerTool [search_tweets_tool] tweet_agent 0
       = Inr ([search_tweets_tool, search_tweets_tool\<lparr>agentId := Some ''twitter''\<rparr>],
              tweet_agent\<lparr>tools := [1], logged := [LInfo, LInfo, LDebug],
                          emitted := [(''tool-registered'', Some 1)]\<rparr>, 1)
   \<and> agent_registerResource [search_tweets_tool] tweet_agent 0
       = Inr ([search_tweets_tool, search_tweets_tool\<lparr>agentId := Some ''twitter''\<rparr>],
              tweet_agent\<lparr>resources := [1], logged := [LInfo, LInfo, LDebug],
                          emitted := [(''resource-registered'', Some 1)]\<rparr>, 1)
   \<and> owned (fst (run_calls [Call_start, Call_stop, Call_start] ([search_tweets_tool], tweet_agent)))
        (snd (run_calls [Call_start, Call_stop, Call_start] ([search_tweets_tool], tweet_agent)))"
proof -
  have len: "(0::nat) < length [search_tweets_tool]" by simp
  have valid: "valid_descriptor ([search_tweets_tool] ! 0)" by simp
  have own: "owned [search_tweets_tool] tweet_agent"
    by (simp add: tweet_agent_def owned_new_agents)
  have fields: "agent_id tweet_agent = ''twitter''" "tools tweet_agent = []"
    "resources tweet_agent = []" "logged tweet_agent = [LInfo, LInfo]"
    "emitted tweet_agent = []"
    by (simp_all add: tweet_agent_def new_TwitterAgent_def new_BaseAgent_def)
  have t: "agent_registerTool [search_tweets_tool] tweet_agent 0
       = Inr ([search_tweets_tool, search_tweets_tool\<lparr>agentId := Some ''twitter''\<rparr>],
              tweet_agent\<lparr>tools := [1], logged := [LInfo, LInfo, LDebug],
                          emitted := [(''tool-registered'', Some 1)]\<rparr>, 1)"
    using valid by (simp add: agent_registerTool_valid fields)
  have r: "agent_registerResource [search_tweets_tool] tweet_agent 0
       = Inr ([search_tweets_tool, search_tweets_tool\<lparr>agentId := Some ''twitter''\<rparr>],
              tweet_agent\<lparr>resources := [1], logged := [LInfo, LInfo, LDebug],
                          emitted := [(''resource-registered'', Some 1)]\<rparr>, 1)"
    using valid by (simp add: agent_registerResource_valid fields)
  show ?thesis
    using len valid own t r
      registration_tags_copy [of 0 "[search_tweets_tool]" tweet_agent 0
        "[Call_start, Call_stop, Call_start]"]
    by simp
qed

section \<open>Properties of the text analysis\<close>

lemma starts_with_map: "starts_with s p \<Longrightarrow> starts_with (map f s) (map f p)"
  by (induction s p rule: starts_with.induct) simp_all

lemma str_includes_map: "str_includes s p \<Longrightarrow> str_includes (map f s) (map f p)"
proof (induction s)
  case Nil
  then show ?case by simp
next
  case (Cons c cs)
  from Cons.prems have "starts_with (c # cs) p \<or> str_includes cs p" by simp
  then show ?case
  proof
    assume "starts_with (c # cs) p"
    from starts_with_map [OF this, of f] show ?thesis by simp
  next
    assume "str_includes cs p"
    from Cons.IH [OF this] show ?thesis by simp
  qed
qed

lemma technologie_keywords_lower: "map toLowerCase technologie_keywords = technologie_keywords"
  by code_simp

lemma fixed_by_map: "map f xs = xs \<Longrightarrow> x \<in> set xs \<Longrightarrow> f x = x"
  by (induction xs) auto

lemma keyword_in_lower_text:
  assumes "kw \<in> set technologie_keywords" and "str_includes text kw"
  shows "str_includes (toLowerCase text) kw"
proof -
  have "toLowerCase kw = kw"
    using technologie_keywords_lower assms(1) by (rule fixed_by_map)
  moreover have "str_includes (toLowerCase text) (toLowerCase kw)"
    unfolding toLowerCase_def using assms(2) by (rule str_includes_map)
  ultimately show ?thesis by simp
qed

lemma technologie_entry:
  assumes "kw \<in> set technologie_keywords" and "str_includes lowerText kw"
  shows "\<exists>t \<in> set (topic_entry lowerText (''technologie'', technologie_keywords)).
           topic_name t = ''technologie''"
proof -
  from assms have "kw \<in> set (filter (str_includes lowerText) technologie_keywords)"
    by simp
  then have "filter (str_includes lowerText) technologie_keywords \<noteq> []"
    by (metis empty_iff empty_set)
  then have "length (filter (str_includes lowerText) technologie_keywords) > 0"
    by simp
  then show ?thesis
    by (simp add: topic_entry_def Let_def)
qed

lemma technologie_topic_found:
  assumes "kw \<in> set technologie_keywords" and "str_includes text kw"
  shows "\<exists>t \<in> set (extract_topics text). topic_name t = ''technologie''"
proof -
  from technologie_entry [OF assms(1) keyword_in_lower_text [OF assms]]
  obtain t where t: "t \<in> set (topic_entry (toLowerCase text)
                                (''technologie'', technologie_keywords))"
    and n: "topic_name t = ''technologie''" by blast
  have "(''technologie'', technologie_keywords) \<in> set possibleTopics"
    by (simp add: possibleTopics_def)
  with t have "t \<in> set (extract_topics text)"
    by (auto simp: extract_topics_def)
  with n show ?thesis by blast
qed

lemma happy_sentiment:
  "extract_sentiment happy_text = \<lparr>score = 1, label = ''positive'', confidence = 7 / 10\<rparr>"
  by code_simp

lemma happy_scores:
  "positiveScore (split_spaces (toLowerCase happy_text)) = 1"
  "negativeScore (split_spaces (toLowerCase happy_text)) = 0"
  by code_simp+

text \<open>
  Claim C9: \<open>analyzeText\<close> with default options on the text \<open>Je suis tres content de ce
  produit\<close> (with a grave accent in the third word) returns the sentiment label
  \<open>positive\<close>, one word counting as positive and none as negative; and for every text that
  contains a keyword of the topic \<open>technologie\<close>, analysed with topic extraction not switched
  off, the returned \<open>topics\<close> is an array, not \<open>null\<close>, with an entry named
  \<open>technologie\<close>.
\<close>

theorem analyzeText_sentiment_and_topics:
  "analysis_sentiment (analyzeText happy_text default_options)
     = Some \<lparr>score = 1, label = ''positive'', confidence = 7 / 10\<rparr>
   \<and> negativeScore (split_spaces (toLowerCase happy_text))
       < positiveScore (split_spaces (toLowerCase happy_text))
   \<and> (given_extractTopics options \<noteq> Some False \<and> kw \<in> set technologie_keywords
        \<and> str_includes text kw \<longrightarrow>
        (\<exists>ts. analysis_topics (analyzeText text options) = Some ts
           \<and> (\<exists>t \<in> set ts. topic_name t = ''technologie'')))"
proof (intro conjI impI)
  show "analysis_sentiment (analyzeText happy_text default_options)
     = Some \<lparr>score = 1, label = ''positive'', confidence = 7 / 10\<rparr>"
    by (simp add: analyzeText_def merge_options_def default_options_def happy_sentiment)
  show "negativeScore (split_spaces (toLowerCase happy_text))
       < positiveScore (split_spaces (toLowerCase happy_text))"
    by (simp add: happy_scores)
next
  assume h: "given_extractTopics options \<noteq> Some False \<and> kw \<in> set technologie_keywords
        \<and> str_includes text kw"
  then have on: "extractTopics (merge_options options)"
    by (cases "given_extractTopics options") (simp_all add: merge_options_def)
  from h have "kw \<in> set technologie_keywords" and "str_includes text kw"
    by simp_all
  then have "\<exists>t \<in> set (extract_topics text). topic_name t = ''technologie''"
    by (rule technologie_topic_found)
  with on show "\<exists>ts. analysis_topics (analyzeText text options) = Some ts
           \<and> (\<exists>t \<in> set ts. topic_name t = ''technologie'')"
    by (simp add: analyzeText_def Let_def)
qed

lemma tech_topics:
  "extract_topics tech_text =
     [\<lparr>topic_name = ''technologie'', topic_confidence = 1 / 3, matchedKeywords = [''tech'']\<rparr>]"
  by code_simp

theorem analyzeText_sentiment_and_topics_witness:
  "given_extractTopics default_options \<noteq> Some False
   \<and> ''tech'' \<in> set technologie_keywords
   \<and> str_includes tech_text ''tech''
   \<and> analysis_topics (analyzeText tech_text default_options)
       = Some [\<lparr>topic_name = ''technologie'', topic_confidence = 1 / 3,
                matchedKeywords = [''tech'']\<rparr>]"
proof -
  have on: "given_extractTopics default_options \<noteq> Some False"
    by (simp add: default_options_def)
  have kw: "''tech'' \<in> set technologie_keywords"
    by (simp add: technologie_keywords_def)
  have inc: "str_includes tech_text ''tech''"
    by code_simp
  have res: "analysis_topics (analyzeText tech_text default_options)
       = Some [\<lparr>topic_name = ''technologie'', topic_confidence = 1 / 3,
                matchedKeywords = [''tech'']\<rparr>]"
    by (simp add: analyzeText_def merge_options_def default_options_def tech_topics)
  show ?thesis
    using on kw inc res
      analyzeText_sentiment_and_topics [of default_options "''tech''" tech_text]
    by simp
qed

end
